theory Spec2Isabelle
  imports Main "HOL-Library.Word"
begin

unbundle bit_operations_syntax

section \<open>Errors\<close>

text \<open>
  The C++ sources throw \<^verbatim>\<open>std::out_of_range\<close>, \<^verbatim>\<open>std::invalid_argument\<close> and
  \<^verbatim>\<open>std::runtime_error\<close>, each with a message.  An unchecked access outside an
  array, or a shift by an amount outside the width of the shifted value, has no defined
  result in C++; the model makes it the value \<open>UndefinedBehaviour\<close>.
\<close>

datatype error =
    OutOfRange string
  | InvalidArgument string
  | RuntimeError string
  | UndefinedBehaviour

definition bindE :: "error + 'a \<Rightarrow> ('a \<Rightarrow> error + 'b) \<Rightarrow> error + 'b" where
  "bindE x f = (case x of Inl e \<Rightarrow> Inl e | Inr v \<Rightarrow> f v)"

text \<open>\<^verbatim>\<open>std::array::at\<close>: a checked read, and a checked write.\<close>

definition at_read :: "'a list \<Rightarrow> int \<Rightarrow> error + 'a" where
  "at_read xs i =
     (if 0 \<le> i \<and> i < int (length xs) then Inr (xs ! nat i)
      else Inl (OutOfRange ''array::at''))"

definition at_write :: "'a list \<Rightarrow> int \<Rightarrow> 'a \<Rightarrow> error + 'a list" where
  "at_write xs i v =
     (if 0 \<le> i \<and> i < int (length xs) then Inr (xs[nat i := v])
      else Inl (OutOfRange ''array::at''))"

section \<open>Bitboard (Thera/Bitboard.hpp)\<close>

text \<open>
  The class \<^verbatim>\<open>Bitboard<N>\<close>.  Its fields are \<^verbatim>\<open>__uint128_t bits\<close>, the arrays
  \<^verbatim>\<open>occupiedSquares\<close> (of \<open>N\<close> entries) and \<^verbatim>\<open>reverseOccupiedSquares\<close> (of 120 entries)
  and \<^verbatim>\<open>numPieces\<close>.  A square is the \<^verbatim>\<open>int8_t pos\<close> of a \<^verbatim>\<open>Coordinate8x8\<close>, an
  \<open>int\<close> here.  The build type is a compile-time constant of the source; it is the
  parameter \<open>debug\<close> of every operation that tests it.
\<close>

record Bitboard =
  bits :: "128 word"
  occupiedSquares :: "int list"
  reverseOccupiedSquares :: "int list"
  numPieces :: int

text \<open>\<^verbatim>\<open>std::popcount\<close>.\<close>

definition popcount :: "'a::len word \<Rightarrow> nat" where
  "popcount w = length (filter (bit w) [0..<LENGTH('a)])"

text \<open>
  Modelled from the spec: the helpers of \<^verbatim>\<open>Thera/Utils/Math.hpp\<close> and
  \<^verbatim>\<open>Thera/Utils/Coordinates.hpp\<close> are not among the sources.  The spec names the
  bitboard operations "test/set/clear by square"; \<open>isInRange\<close> is the inclusive range
  test that the \<^verbatim>\<open>static_assert\<close> on \<open>N\<close> ("up to 64 pieces") needs, and
  \<open>isOnBoard\<close> of an 8x8 coordinate is the compact index range 0..63.
\<close>

definition isInRange :: "int \<Rightarrow> int \<Rightarrow> int \<Rightarrow> bool" where
  "isInRange x lo hi = (lo \<le> x \<and> x \<le> hi)"

definition isOnBoard :: "int \<Rightarrow> bool" where
  "isOnBoard square = (0 \<le> square \<and> square < 64)"

definition getBit :: "128 word \<Rightarrow> int \<Rightarrow> error + bool" where
  "getBit w i =
     (if 0 \<le> i \<and> i < 128 then Inr (bit w (nat i)) else Inl UndefinedBehaviour)"

definition setBit :: "128 word \<Rightarrow> int \<Rightarrow> bool \<Rightarrow> error + 128 word" where
  "setBit w i v =
     (if 0 \<le> i \<and> i < 128
      then Inr (if v then set_bit (nat i) w else unset_bit (nat i) w)
      else Inl UndefinedBehaviour)"

text \<open>\<^verbatim>\<open>(*this)[square] = value\<close>, through \<^verbatim>\<open>Reference::operator=\<close>.\<close>

definition assignSquare :: "Bitboard \<Rightarrow> int \<Rightarrow> bool \<Rightarrow> error + Bitboard" where
  "assignSquare bb square v =
     bindE (setBit (bits bb) square v) (\<lambda>w. Inr (bb\<lparr>bits := w\<rparr>))"

definition isOccupied :: "bool \<Rightarrow> Bitboard \<Rightarrow> int \<Rightarrow> error + bool" where
  "isOccupied debug bb square =
     (if debug \<and> \<not> isInRange square 0 127
      then Inl (OutOfRange ''Square index is outside the board'')
      else getBit (bits bb) square)"

definition placePiece :: "bool \<Rightarrow> Bitboard \<Rightarrow> int \<Rightarrow> error + Bitboard" where
  "placePiece debug bb square =
     (if debug then
        bindE (isOccupied debug bb square) (\<lambda>occ.
          if occ then Inl (InvalidArgument ''Tried to place piece on already occupied square.'')
          else if \<not> (0 \<le> numPieces bb \<and> numPieces bb < int (length (occupiedSquares bb)))
                  \<or> \<not> (0 \<le> square \<and> square < int (length (reverseOccupiedSquares bb)))
          then Inl UndefinedBehaviour
          else assignSquare
                 (bb\<lparr>occupiedSquares := (occupiedSquares bb)[nat (numPieces bb) := square],
                     reverseOccupiedSquares :=
                       (reverseOccupiedSquares bb)[nat square := numPieces bb],
                     numPieces := numPieces bb + 1\<rparr>)
                 square True)
      else assignSquare bb square True)"

definition removePiece :: "bool \<Rightarrow> Bitboard \<Rightarrow> int \<Rightarrow> error + Bitboard" where
  "removePiece debug bb square =
     (if debug then
        bindE (isOccupied debug bb square) (\<lambda>occ.
          if \<not> occ then Inl (InvalidArgument ''Tried to remove piece from empty square.'')
          else if \<not> isOnBoard square
          then Inl (InvalidArgument ''Tried to remove piece from outside the board.'')
          else
            bindE (at_read (reverseOccupiedSquares bb) square) (\<lambda>pieceIndex.
            bindE (at_read (occupiedSquares bb) (numPieces bb - 1)) (\<lambda>lastEntry.
            bindE (at_write (occupiedSquares bb) pieceIndex lastEntry) (\<lambda>occ1.
            bindE (at_read occ1 pieceIndex) (\<lambda>moved.
            bindE (at_write (reverseOccupiedSquares bb) moved pieceIndex) (\<lambda>rev1.
            bindE (at_write rev1 square (- 1)) (\<lambda>rev2.
              assignSquare
                (bb\<lparr>occupiedSquares := occ1, reverseOccupiedSquares := rev2,
                    numPieces := numPieces bb - 1\<rparr>)
                square False)))))))
      else assignSquare bb square False)"

subsection \<open>Bit scan and the list of pieces\<close>

definition lsb_64_table :: "int list" where
  "lsb_64_table =
    [63, 30,  3, 32, 59, 14, 11, 33,
     60, 24, 50,  9, 55, 19, 21, 34,
     61, 29,  2, 53, 51, 23, 41, 18,
     56, 28,  1, 43, 46, 27,  0, 35,
     62, 31, 58,  4,  5, 49, 54,  6,
     15, 52, 12, 40,  7, 42, 45, 16,
     25, 57, 48, 13, 10, 39,  8, 44,
     20, 47, 38, 22, 17, 37, 36, 26]"

text \<open>
  The last two statements of \<^verbatim>\<open>bitScanForward\<close>, on the value of \<^verbatim>\<open>bb ^= bb - 1\<close>:
  \<^verbatim>\<open>folded = (uint32_t) bb ^ (bb >> 32)\<close> is a 64-bit exclusive or, truncated to 32 bits
  by the assignment; the product with \<^verbatim>\<open>0x78291ACF\<close> is a 32-bit unsigned product.
\<close>

definition foldedIndex :: "64 word \<Rightarrow> int" where
  "foldedIndex bb =
     (let folded = (ucast ((ucast (ucast bb :: 32 word) :: 64 word) XOR drop_bit 32 bb)
                     :: 32 word)
      in lsb_64_table ! unat (drop_bit 26 (folded * 0x78291ACF)))"

definition bitScanForward :: "64 word \<Rightarrow> int" where
  "bitScanForward bb = foldedIndex (bb XOR (bb - 1))"

text \<open>
  The loop of \<^verbatim>\<open>getPieces\<close>: \<^verbatim>\<open>do { *list++ = bitScanForward(x); } while (x &= x-1);\<close>
  The 128-bit \<open>x\<close> is truncated to 64 bits by the call.  \<open>out\<close> holds the entries written
  so far into the result array of \<open>N\<close> entries; a write past its end is undefined.
\<close>

function getPiecesLoop :: "nat \<Rightarrow> 128 word \<Rightarrow> int list \<Rightarrow> error + int list" where
  "getPiecesLoop N x out =
     (if N \<le> length out then Inl UndefinedBehaviour
      else
        let out' = out @ [bitScanForward (ucast x)];
            x' = x AND (x - 1)
        in if x' \<noteq> 0 then getPiecesLoop N x' out' else Inr out')"
  by pat_completeness auto

lemma and_pred_less:
  fixes x :: "'a::len word"
  assumes "x AND (x - 1) \<noteq> 0"
  shows "unat (x AND (x - 1)) < unat x"
proof -
  from assms have nz: "x \<noteq> 0" by auto
  have "x AND (x - 1) \<le> x - 1" by (rule word_and_le1)
  moreover have "x - 1 < x" using nz by (simp add: word_less_nat_alt unat_minus_one)
    (metis One_nat_def Suc_pred diff_less lessI unat_gt_0 zero_less_one)
  ultimately show ?thesis by (simp add: word_less_nat_alt word_le_nat_alt)
qed

termination getPiecesLoop
  by (relation "measure (\<lambda>(N, x, out). unat x)") (auto intro: and_pred_less)

text \<open>
  \<^verbatim>\<open>getPieces\<close> returns an array of \<open>N\<close> coordinates of which the first popcount entries
  are written; the model returns the written entries.
\<close>

definition getPieces :: "bool \<Rightarrow> nat \<Rightarrow> Bitboard \<Rightarrow> error + int list" where
  "getPieces debug N bb =
     (let x = bits bb in
      if debug \<and> int (popcount x) \<noteq> numPieces bb
      then Inl (RuntimeError ''Desync between bitboard and numPieces detected.'')
      else if x \<noteq> 0 then getPiecesLoop N x [] else Inr [])"


section \<open>The least significant set bit\<close>

lemma lsb_split:
  fixes w :: "'a::len word"
  assumes "bit w k" and "take_bit k w = 0" and "j = Suc k"
  shows "w = push_bit j (drop_bit j w) + 2 ^ k"
proof -
  have low: "\<not> bit w n" if "n < k" for n
  proof -
    have "bit (take_bit k w) n = bit w n" using that by (simp add: bit_take_bit_iff)
    then show ?thesis using assms(2) by simp
  qed
  have "take_bit (Suc k) w = 2 ^ k"
  proof (rule bit_word_eqI)
    fix n assume "n < LENGTH('a)"
    then show "bit (take_bit (Suc k) w) n = bit ((2::'a word) ^ k) n"
      using low [of n] assms(1) by (cases "n = k") (auto simp: bit_take_bit_iff bit_exp_iff less_Suc_eq)
  qed
  then show ?thesis
    using bits_ident [of j w] assms(3) by simp
qed

lemma xor_pred_mask:
  fixes w :: "'a::len word"
  assumes "bit w k" and "take_bit k w = 0"
  shows "w XOR (w - 1) = mask (Suc k)"
proof -
  define j where "j = Suc k"
  define p where "p = push_bit j (drop_bit j w)"
  have w: "w = p + 2 ^ k" unfolding p_def using assms j_def by (rule lsb_split)
  have w1: "w - 1 = p + mask k" by (simp add: w mask_eq_exp_minus_1)
  have a: "p + 2 ^ k = p OR 2 ^ k"
    by (rule disjunctive_add) (auto simp: p_def j_def bit_push_bit_iff bit_exp_iff simp del: push_bit_Suc)
  have b: "p + mask k = p OR mask k"
    by (rule disjunctive_add) (auto simp: p_def j_def bit_push_bit_iff bit_mask_iff simp del: push_bit_Suc)
  have "(p OR 2 ^ k) XOR (p OR mask k) = mask j"
    by (rule bit_word_eqI) (auto simp: p_def j_def bit_xor_iff bit_or_iff bit_push_bit_iff bit_mask_iff bit_exp_iff simp del: push_bit_Suc)
  then show ?thesis using w w1 a b j_def by simp
qed

lemma and_pred_bits:
  fixes w :: "'a::len word"
  assumes "bit w k" and "take_bit k w = 0"
  shows "bit (w AND (w - 1)) n \<longleftrightarrow> bit w n \<and> n \<noteq> k"
proof -
  define j where "j = Suc k"
  define p where "p = push_bit j (drop_bit j w)"
  have w: "w = p + 2 ^ k" unfolding p_def using assms j_def by (rule lsb_split)
  have w1: "w - 1 = p + mask k" by (simp add: w mask_eq_exp_minus_1)
  have a: "p + 2 ^ k = p OR 2 ^ k"
    by (rule disjunctive_add) (auto simp: p_def j_def bit_push_bit_iff bit_exp_iff simp del: push_bit_Suc)
  have b: "p + mask k = p OR mask k"
    by (rule disjunctive_add) (auto simp: p_def j_def bit_push_bit_iff bit_mask_iff simp del: push_bit_Suc)
  have c: "w AND (w - 1) = (p OR 2 ^ k) AND (p OR mask k)" using w w1 a b by simp
  have d: "bit w n \<longleftrightarrow> bit (p OR 2 ^ k) n" using w a by simp
  show ?thesis unfolding c d
    by (auto simp: p_def j_def bit_and_iff bit_or_iff bit_push_bit_iff bit_mask_iff bit_exp_iff simp del: push_bit_Suc)
qed

definition lsbIndex :: "'a::len word \<Rightarrow> nat" where
  "lsbIndex w = (LEAST n. bit w n)"

lemma lsbIndex_props:
  fixes w :: "'a::len word"
  assumes "w \<noteq> 0"
  shows "bit w (lsbIndex w)" and "take_bit (lsbIndex w) w = 0" and "lsbIndex w < LENGTH('a)"
proof -
  from assms obtain n where n: "bit w n" by (auto simp: bit_eq_iff)
  then show b: "bit w (lsbIndex w)" unfolding lsbIndex_def by (rule LeastI)
  have "\<And>m. m < lsbIndex w \<Longrightarrow> \<not> bit w m" unfolding lsbIndex_def by (rule not_less_Least)
  then show "take_bit (lsbIndex w) w = 0"
    by (auto simp: bit_eq_iff bit_take_bit_iff)
  from b show "lsbIndex w < LENGTH('a)" by (rule bit_imp_le_length)
qed

lemma foldedIndex_mask: "\<forall>k \<in> set [0..<64]. foldedIndex (mask (Suc k)) = int k"
  by code_simp


lemma bitScanForward_lsb:
  assumes "bit bb k" and "take_bit k bb = 0"
  shows "bitScanForward bb = int k"
proof -
  have "k < 64" using assms(1) by (auto dest: bit_imp_le_length)
  then have "k \<in> set [0..<64]" by simp
  then have "foldedIndex (mask (Suc k)) = int k" using foldedIndex_mask by blast
  then show ?thesis by (simp add: bitScanForward_def xor_pred_mask [OF assms])
qed

lemma filter_lsb:
  fixes x :: "'a::len word"
  assumes "bit x k" and "take_bit k x = 0" and "k < n"
  shows "filter (bit x) [0..<n] = k # filter (bit (x AND (x - 1))) [0..<n]"
proof -
  have low: "\<not> bit x m" if "m < k" for m
  proof -
    have "bit (take_bit k x) m = bit x m" using that by (simp add: bit_take_bit_iff)
    then show ?thesis using assms(2) by simp
  qed
  have split: "[0..<n] = [0..<k] @ k # [Suc k..<n]"
    using assms(3) by (metis le_add1 less_imp_add_positive plus_nat.add_0 upt_add_eq_append upt_conv_Cons)
  have a: "filter (bit x) [0..<k] = []" using low by (auto simp: filter_empty_conv)
  have b: "filter (bit (x AND (x - 1))) [0..<k] = []"
    using low by (auto simp: filter_empty_conv and_pred_bits [OF assms(1,2)])
  have c: "filter (bit (x AND (x - 1))) [Suc k..<n] = filter (bit x) [Suc k..<n]"
    by (rule filter_cong) (auto simp: and_pred_bits [OF assms(1,2)])
  show ?thesis
    unfolding split using a b c assms(1) by (simp add: and_pred_bits [OF assms(1,2)])
qed

definition low64 :: "128 word \<Rightarrow> bool" where
  "low64 x = (drop_bit 64 x = 0)"

lemma low64_bit: "low64 x \<Longrightarrow> bit x n \<Longrightarrow> n < 64"
proof (rule ccontr)
  assume l: "low64 x" and b: "bit x n" and "\<not> n < 64"
  then obtain m where "n = 64 + m" by (metis le_add_diff_inverse not_less)
  then have "bit (drop_bit 64 x) m" using b by (simp add: bit_drop_bit_eq)
  then show False using l by (simp add: low64_def)
qed

lemma low64_pred: "low64 x \<Longrightarrow> bit x k \<Longrightarrow> take_bit k x = 0 \<Longrightarrow> low64 (x AND (x - 1))"
  unfolding low64_def
  by (rule bit_word_eqI) (auto simp: bit_drop_bit_eq and_pred_bits dest!: low64_bit [unfolded low64_def])

lemma filter_upt_bound:
  assumes "\<And>n. P n \<Longrightarrow> n < m" and "m \<le> l"
  shows "filter P [0..<l] = filter P [0..<m]"
proof -
  have "[0..<l] = [0..<m] @ [m..<l]"
    using assms(2) by (metis le_add_diff_inverse plus_nat.add_0 upt_add_eq_append zero_le)
  moreover have "filter P [m..<l] = []"
    using assms(1) by (fastforce simp: filter_empty_conv)
  ultimately show ?thesis by simp
qed

lemma popcount_low64:
  assumes "low64 x"
  shows "popcount x = length (filter (bit x) [0..<64])"
proof -
  have "filter (bit x) [0..<LENGTH(128)] = filter (bit x) [0..<64]"
    by (rule filter_upt_bound) (use low64_bit [OF assms] in auto)
  then show ?thesis by (simp only: popcount_def)
qed

lemma getPiecesLoop_correct:
  "x \<noteq> 0 \<Longrightarrow> low64 x \<Longrightarrow> length out + popcount x \<le> N \<Longrightarrow>
   getPiecesLoop N x out = Inr (out @ map int (filter (bit x) [0..<64]))"
proof (induction N x out rule: getPiecesLoop.induct)
  case (1 N x out)
  define k where "k = lsbIndex x"
  have bk: "bit x k" and tk: "take_bit k x = 0"
    using lsbIndex_props [OF "1.prems"(1)] by (simp_all add: k_def)
  have k64: "k < 64" using low64_bit [OF "1.prems"(2) bk] .
  have ub: "bit (ucast x :: 64 word) k" using bk k64 by (simp add: bit_ucast_iff)
  have ut: "take_bit k (ucast x :: 64 word) = 0"
  proof (rule bit_word_eqI)
    fix n assume "n < LENGTH(64)"
    have "bit (take_bit k x) n = (n < k \<and> bit x n)" by (simp add: bit_take_bit_iff)
    then have "\<not> (n < k \<and> bit x n)" using tk by simp
    then show "bit (take_bit k (ucast x :: 64 word)) n = bit (0 :: 64 word) n"
      by (auto simp: bit_take_bit_iff bit_ucast_iff)
  qed
  have bsf: "bitScanForward (ucast x) = int k" using ub ut by (rule bitScanForward_lsb)
  define x' where "x' = x AND (x - 1)"
  have fl: "filter (bit x) [0..<64] = k # filter (bit x') [0..<64]"
    unfolding x'_def using bk tk k64 by (rule filter_lsb)
  have l': "low64 x'" unfolding x'_def using "1.prems"(2) bk tk by (rule low64_pred)
  have pc: "popcount x = Suc (popcount x')"
    by (simp add: popcount_low64 [OF "1.prems"(2)] popcount_low64 [OF l'] fl)
  have room: "\<not> N \<le> length out" using "1.prems"(3) pc by simp
  show ?case
  proof (cases "x' = 0")
    case True
    then have "filter (bit x') [0..<64] = []" by simp
    then show ?thesis
      using room True fl bsf by (subst getPiecesLoop.simps) (simp add: x'_def [symmetric] Let_def)
  next
    case False
    have "getPiecesLoop N x' (out @ [bitScanForward (ucast x)]) =
            Inr ((out @ [bitScanForward (ucast x)]) @ map int (filter (bit x') [0..<64]))"
      using "1.IH" [OF room refl refl, folded x'_def, OF False False l'] "1.prems"(3) pc
      by simp
    then show ?thesis
      using room False fl bsf by (subst getPiecesLoop.simps) (simp add: x'_def [symmetric] Let_def)
  qed
qed


text \<open>
  C7, as the code has it.  For a non-empty bitboard whose set bits all lie in 0..63, that
  holds no more pieces than the \<open>N\<close> entries of the result array and, in a debug build,
  whose \<open>numPieces\<close> agrees with its bits, \<open>getPieces\<close> returns the occupied square
  indices, each once, in strictly ascending order.  For every nonzero 64-bit \<open>w\<close>,
  \<open>bitScanForward w\<close> is the index of the least significant set bit of \<open>w\<close>, and
  \<open>w AND (w - 1)\<close> is \<open>w\<close> without exactly that bit.
\<close>

theorem getPieces_bitScanForward:
  assumes "bits bb \<noteq> 0" and "drop_bit 64 (bits bb) = 0"
    and "popcount (bits bb) \<le> N"
    and "debug \<longrightarrow> numPieces bb = int (popcount (bits bb))"
    and "w \<noteq> 0"
  shows "(\<exists>l. getPieces debug N bb = Inr l \<and> sorted_wrt (<) l
              \<and> set l = int ` {n. bit (bits bb) n})
       \<and> (0 \<le> bitScanForward w \<and> bitScanForward w < 64
            \<and> bit w (nat (bitScanForward w))
            \<and> (\<forall>m. bit w m \<longrightarrow> nat (bitScanForward w) \<le> m))
       \<and> (\<forall>n. bit (w AND (w - 1)) n \<longleftrightarrow> bit w n \<and> n \<noteq> nat (bitScanForward w))"
proof -
  let ?l = "map int (filter (bit (bits bb)) [0..<64])"
  have low: "low64 (bits bb)" using assms(2) by (simp add: low64_def)
  have "getPiecesLoop N (bits bb) [] = Inr ([] @ ?l)"
    using assms(1) low assms(3) by (intro getPiecesLoop_correct) simp_all
  then have g: "getPieces debug N bb = Inr ?l"
    using assms(1,4) by (simp add: getPieces_def Let_def)
  have s: "sorted_wrt (<) ?l"
    by (simp add: sorted_wrt_map sorted_wrt_filter)
  have e: "set ?l = int ` {n. bit (bits bb) n}"
    using low64_bit [OF low] by auto
  have bk: "bit w (lsbIndex w)" and tk: "take_bit (lsbIndex w) w = 0"
    and lk: "lsbIndex w < 64"
    using lsbIndex_props [OF assms(5)] by simp_all
  have b: "bitScanForward w = int (lsbIndex w)" using bk tk by (rule bitScanForward_lsb)
  have least: "lsbIndex w \<le> m" if "bit w m" for m
    unfolding lsbIndex_def using that by (rule Least_le)
  show ?thesis
    using g s e b bk lk least and_pred_bits [OF bk tk] by auto
qed

theorem getPieces_bitScanForward_witness:
  "bits \<lparr>bits = 40, occupiedSquares = [], reverseOccupiedSquares = [], numPieces = 2\<rparr> \<noteq> 0
   \<and> popcount (40 :: 128 word) = 2
   \<and> (40 :: 64 word) \<noteq> 0
   \<and> (\<exists>l. getPieces True 12
              \<lparr>bits = 40, occupiedSquares = [], reverseOccupiedSquares = [], numPieces = 2\<rparr>
            = Inr l \<and> sorted_wrt (<) l \<and> set l = int ` {n. bit (40 :: 128 word) n})
   \<and> bit (40 :: 64 word) (nat (bitScanForward 40))"
proof -
  let ?bb = "\<lparr>bits = 40, occupiedSquares = [], reverseOccupiedSquares = [], numPieces = 2\<rparr>"
  have p: "popcount (40 :: 128 word) = 2" by code_simp
  have h1: "bits ?bb \<noteq> 0" by simp
  have h2: "drop_bit 64 (bits ?bb) = 0" by simp
  have h3: "popcount (bits ?bb) \<le> 12" using p by simp
  have h4: "True \<longrightarrow> numPieces ?bb = int (popcount (bits ?bb))" using p by simp
  have h5: "(40 :: 64 word) \<noteq> 0" by simp
  show ?thesis
    using getPieces_bitScanForward [OF h1 h2 h3 h4 h5] p by simp
qed

text \<open>
  Without the two conditions \<open>getPieces\<close> does not return the occupied squares.  After
  \<^verbatim>\<open>setBit(5)\<close> on a cleared \<^verbatim>\<open>Bitboard<12>\<close> the bits hold one piece and \<open>numPieces\<close>
  is still 0: the debug build throws.  A \<^verbatim>\<open>Bitboard<2>\<close> with the bits 0, 1 and 2 set holds
  three pieces: the release build writes a third entry into an array of two.
\<close>

theorem getPieces_desync_overflow:
  "(32 :: 128 word) \<noteq> 0 \<and> drop_bit 64 (32 :: 128 word) = 0
   \<and> getPieces True 12
        \<lparr>bits = 32, occupiedSquares = replicate 12 (- 1),
          reverseOccupiedSquares = replicate 120 0, numPieces = 0\<rparr>
      = Inl (RuntimeError ''Desync between bitboard and numPieces detected.'')
   \<and> (7 :: 128 word) \<noteq> 0 \<and> drop_bit 64 (7 :: 128 word) = 0
   \<and> getPieces False 2
        \<lparr>bits = 7, occupiedSquares = replicate 2 (- 1),
          reverseOccupiedSquares = replicate 120 0, numPieces = 3\<rparr>
      = Inl UndefinedBehaviour"
proof -
  have "getPieces True 12
        \<lparr>bits = 32, occupiedSquares = replicate 12 (- 1),
          reverseOccupiedSquares = replicate 120 0, numPieces = 0\<rparr>
      = Inl (RuntimeError ''Desync between bitboard and numPieces detected.'')"
    by code_simp
  moreover have "getPieces False 2
        \<lparr>bits = 7, occupiedSquares = replicate 2 (- 1),
          reverseOccupiedSquares = replicate 120 0, numPieces = 3\<rparr>
      = Inl UndefinedBehaviour"
    by code_simp
  moreover have "drop_bit 64 (32 :: 128 word) = 0" "drop_bit 64 (7 :: 128 word) = 0"
    by (simp_all add: drop_bit_eq_div)
  ultimately show ?thesis by simp
qed

section \<open>Placing and removing pieces\<close>

text \<open>
  C9.  In a debug build \<open>placePiece\<close> on an occupied square and \<open>removePiece\<close> on an empty
  square fail with \<^verbatim>\<open>std::invalid_argument\<close>; in a release build neither tests the
  square, and each only writes the bit.  When the square is empty (for \<open>placePiece\<close>) or
  occupied (for \<open>removePiece\<close>), the debug build does not take that error branch.
\<close>

theorem placePiece_removePiece_checks:
  "(isOccupied True bb sq = Inr True \<longrightarrow>
      placePiece True bb sq
        = Inl (InvalidArgument ''Tried to place piece on already occupied square.''))
   \<and> (isOccupied True bb sq = Inr False \<longrightarrow>
      removePiece True bb sq
        = Inl (InvalidArgument ''Tried to remove piece from empty square.''))
   \<and> (0 \<le> sq \<and> sq < 128 \<longrightarrow>
      placePiece False bb sq = Inr (bb\<lparr>bits := set_bit (nat sq) (bits bb)\<rparr>)
      \<and> removePiece False bb sq = Inr (bb\<lparr>bits := unset_bit (nat sq) (bits bb)\<rparr>))
   \<and> (isOccupied True bb sq = Inr False \<longrightarrow>
      placePiece True bb sq
        \<noteq> Inl (InvalidArgument ''Tried to place piece on already occupied square.''))
   \<and> (isOccupied True bb sq = Inr True \<longrightarrow>
      removePiece True bb sq
        \<noteq> Inl (InvalidArgument ''Tried to remove piece from empty square.''))"
  by (auto simp: placePiece_def removePiece_def bindE_def assignSquare_def setBit_def
        at_read_def at_write_def Let_def
      split: sum.splits if_splits)

theorem placePiece_removePiece_checks_witness:
  "isOccupied True
      \<lparr>bits = 8, occupiedSquares = [3, - 1], reverseOccupiedSquares = replicate 120 0,
        numPieces = 1\<rparr> 3 = Inr True
   \<and> placePiece True
      \<lparr>bits = 8, occupiedSquares = [3, - 1], reverseOccupiedSquares = replicate 120 0,
        numPieces = 1\<rparr> 3
      = Inl (InvalidArgument ''Tried to place piece on already occupied square.'')
   \<and> isOccupied True
      \<lparr>bits = 8, occupiedSquares = [3, - 1], reverseOccupiedSquares = replicate 120 0,
        numPieces = 1\<rparr> 4 = Inr False
   \<and> removePiece True
      \<lparr>bits = 8, occupiedSquares = [3, - 1], reverseOccupiedSquares = replicate 120 0,
        numPieces = 1\<rparr> 4
      = Inl (InvalidArgument ''Tried to remove piece from empty square.'')
   \<and> placePiece False
      \<lparr>bits = 8, occupiedSquares = [3, - 1], reverseOccupiedSquares = replicate 120 0,
        numPieces = 1\<rparr> 3
      = Inr \<lparr>bits = 8, occupiedSquares = [3, - 1], reverseOccupiedSquares = replicate 120 0,
        numPieces = 1\<rparr>"
proof -
  let ?bb = "\<lparr>bits = 8, occupiedSquares = [3, - 1],
              reverseOccupiedSquares = replicate 120 0, numPieces = 1\<rparr>"
  have o3: "isOccupied True ?bb 3 = Inr True"
    by (simp add: isOccupied_def isInRange_def getBit_def bit_numeral_word_iff)
  have o4: "isOccupied True ?bb 4 = Inr False"
    by (simp add: isOccupied_def isInRange_def getBit_def bit_numeral_word_iff)
  have s: "set_bit (nat 3) (8 :: 128 word) = 8"
    by (simp add: set_bit_eq_or)
  show ?thesis
    using placePiece_removePiece_checks [of ?bb 3] placePiece_removePiece_checks [of ?bb 4]
      o3 o4 s
    by simp
qed



section \<open>The 64 squares\<close>

definition allSquares :: "int list" where
  "allSquares = [0, 1, 2, 3, 4, 5, 6, 7, 8, 9, 10, 11, 12, 13, 14, 15, 16, 17, 18, 19, 20, 21, 22, 23, 24, 25, 26, 27, 28, 29, 30, 31, 32, 33, 34, 35, 36, 37, 38, 39, 40, 41, 42, 43, 44, 45, 46, 47, 48, 49, 50, 51, 52, 53, 54, 55, 56, 57, 58, 59, 60, 61, 62, 63]"

lemma in_allSquares:
  assumes "0 \<le> a" and "a < 64"
  shows "a \<in> set allSquares"
proof -
  have e: "allSquares = [0..63]"
    unfolding allSquares_def by (simp add: upto.simps)
  have "a \<in> set [0..63]" using assms by simp
  then show ?thesis by (simp only: e)
qed
section \<open>The table of squares between two squares (Thera/MoveGenerator.hpp)\<close>

text \<open>
  Modelled from the spec: the class \<^verbatim>\<open>Bitboard\<close> that this header uses (no template
  parameter, with arithmetic operators) is not among the sources.  The spec calls it
  "a 64-bit occupancy set" with "bitwise AND/OR/XOR/shift"; its values are \<open>64 word\<close>
  here, its arithmetic the unsigned 64-bit one, and an \<^verbatim>\<open>int\<close> converts to it as to
  \<^verbatim>\<open>uint64_t\<close>.

  \<open>singleEvaluation\<close> is the lambda of that name.  Its arguments are \<^verbatim>\<open>uint8_t\<close>, so
  \<^verbatim>\<open>(sq2 & 7) - (sq1 & 7)\<close> and \<^verbatim>\<open>((sq2 | 7) - sq1) >> 3\<close> are computed on \<^verbatim>\<open>int\<close>
  (the shift is arithmetic) before the conversion to a bitboard.
\<close>

definition singleEvaluation :: "8 word \<Rightarrow> 8 word \<Rightarrow> 64 word" where
  "singleEvaluation sq1 sq2 =
    (let m1 = (0xFFFFFFFFFFFFFFFF :: 64 word);
         a2a7 = (0x0001010101010100 :: 64 word);
         b2g7 = (0x0040201008040200 :: 64 word);
         h1b7 = (0x0002040810204080 :: 64 word);
         btwn = push_bit (unat sq1) m1 XOR push_bit (unat sq2) m1;
         file = (word_of_int ((uint sq2 AND 7) - (uint sq1 AND 7)) :: 64 word);
         rank = (word_of_int (drop_bit 3 ((uint sq2 OR 7) - uint sq1)) :: 64 word);
         line0 = ((file AND 7) - 1) AND a2a7;
         line1 = line0 + 2 * drop_bit 58 ((rank AND 7) - 1);
         line2 = line1 + ((((rank - file) AND 15) - 1) AND b2g7);
         line3 = line2 + ((((rank + file) AND 15) - 1) AND h1b7);
         line4 = line3 * (btwn AND (- btwn))
     in line4 AND btwn)"

text \<open>
  The table: \<^verbatim>\<open>result.at(a).at(b) = singleEvaluation(a, b)\<close> for \<open>a\<close>, \<open>b\<close> in 0..63;
  a read outside the table throws.
\<close>

definition obstructedLUT :: "int \<Rightarrow> int \<Rightarrow> error + 64 word" where
  "obstructedLUT a b =
     (if 0 \<le> a \<and> a < 64 \<and> 0 \<le> b \<and> b < 64
      then Inr (singleEvaluation (word_of_int a) (word_of_int b))
      else Inl (OutOfRange ''array::at''))"

subsection \<open>What the spec says the table holds\<close>

text \<open>
  A square index is file + 8 * rank.  Two squares share a line when they differ and lie
  on one file, one rank or one diagonal; the squares strictly between them are reached
  from the first by 1, 2, ... steps towards the second, short of the second.
\<close>

definition fileOf :: "int \<Rightarrow> int" where
  "fileOf s = s mod 8"

definition rankOf :: "int \<Rightarrow> int" where
  "rankOf s = s div 8"

definition sameLine :: "int \<Rightarrow> int \<Rightarrow> bool" where
  "sameLine a b =
     (a \<noteq> b \<and> (fileOf a = fileOf b \<or> rankOf a = rankOf b
        \<or> \<bar>fileOf b - fileOf a\<bar> = \<bar>rankOf b - rankOf a\<bar>))"

definition squaresBetween :: "int \<Rightarrow> int \<Rightarrow> int list" where
  "squaresBetween a b =
     (if sameLine a b
      then map (\<lambda>j. a + j * (sgn (fileOf b - fileOf a) + 8 * sgn (rankOf b - rankOf a)))
             [1..max \<bar>fileOf b - fileOf a\<bar> \<bar>rankOf b - rankOf a\<bar> - 1]
      else [])"

definition bitboardOf :: "int list \<Rightarrow> 64 word" where
  "bitboardOf sqs = fold (\<lambda>s. set_bit (nat s)) sqs 0"

definition rowOK :: "int \<Rightarrow> bool" where
  "rowOK a =
     list_all (\<lambda>b. singleEvaluation (word_of_int a) (word_of_int b) = bitboardOf (squaresBetween a b)
                  \<and> list_all (\<lambda>s. 0 \<le> s \<and> s < 64) (squaresBetween a b))
       allSquares"

lemmas between_eval =
  rowOK_def singleEvaluation_def bitboardOf_def squaresBetween_def sameLine_def
  fileOf_def rankOf_def allSquares_def set_bit_eq_or mask_numeral upto.simps

lemma rowOK_0: "rowOK 0"
  by (simp add: between_eval)

lemma rowOK_1: "rowOK 1"
  by (simp add: between_eval)

lemma rowOK_2: "rowOK 2"
  by (simp add: between_eval)

lemma rowOK_3: "rowOK 3"
  by (simp add: between_eval)

lemma rowOK_4: "rowOK 4"
  by (simp add: between_eval)

lemma rowOK_5: "rowOK 5"
  by (simp add: between_eval)

lemma rowOK_6: "rowOK 6"
  by (simp add: between_eval)

lemma rowOK_7: "rowOK 7"
  by (simp add: between_eval)

lemma rowOK_8: "rowOK 8"
  by (simp add: between_eval)

lemma rowOK_9: "rowOK 9"
  by (simp add: between_eval)

lemma rowOK_10: "rowOK 10"
  by (simp add: between_eval)

lemma rowOK_11: "rowOK 11"
  by (simp add: between_eval)

lemma rowOK_12: "rowOK 12"
  by (simp add: between_eval)

lemma rowOK_13: "rowOK 13"
  by (simp add: between_eval)

lemma rowOK_14: "rowOK 14"
  by (simp add: between_eval)

lemma rowOK_15: "rowOK 15"
  by (simp add: between_eval)

lemma rowOK_16: "rowOK 16"
  by (simp add: between_eval)

lemma rowOK_17: "rowOK 17"
  by (simp add: between_eval)

lemma rowOK_18: "rowOK 18"
  by (simp add: between_eval)

lemma rowOK_19: "rowOK 19"
  by (simp add: between_eval)

lemma rowOK_20: "rowOK 20"
  by (simp add: between_eval)

lemma rowOK_21: "rowOK 21"
  by (simp add: between_eval)

lemma rowOK_22: "rowOK 22"
  by (simp add: between_eval)

lemma rowOK_23: "rowOK 23"
  by (simp add: between_eval)

lemma rowOK_24: "rowOK 24"
  by (simp add: between_eval)

lemma rowOK_25: "rowOK 25"
  by (simp add: between_eval)

lemma rowOK_26: "rowOK 26"
  by (simp add: between_eval)

lemma rowOK_27: "rowOK 27"
  by (simp add: between_eval)

lemma rowOK_28: "rowOK 28"
  by (simp add: between_eval)

lemma rowOK_29: "rowOK 29"
  by (simp add: between_eval)

lemma rowOK_30: "rowOK 30"
  by (simp add: between_eval)

lemma rowOK_31: "rowOK 31"
  by (simp add: between_eval)

lemma rowOK_32: "rowOK 32"
  by (simp add: between_eval)

lemma rowOK_33: "rowOK 33"
  by (simp add: between_eval)

lemma rowOK_34: "rowOK 34"
  by (simp add: between_eval)

lemma rowOK_35: "rowOK 35"
  by (simp add: between_eval)

lemma rowOK_36: "rowOK 36"
  by (simp add: between_eval)

lemma rowOK_37: "rowOK 37"
  by (simp add: between_eval)

lemma rowOK_38: "rowOK 38"
  by (simp add: between_eval)

lemma rowOK_39: "rowOK 39"
  by (simp add: between_eval)

lemma rowOK_40: "rowOK 40"
  by (simp add: between_eval)

lemma rowOK_41: "rowOK 41"
  by (simp add: between_eval)

lemma rowOK_42: "rowOK 42"
  by (simp add: between_eval)

lemma rowOK_43: "rowOK 43"
  by (simp add: between_eval)

lemma rowOK_44: "rowOK 44"
  by (simp add: between_eval)

lemma rowOK_45: "rowOK 45"
  by (simp add: between_eval)

lemma rowOK_46: "rowOK 46"
  by (simp add: between_eval)

lemma rowOK_47: "rowOK 47"
  by (simp add: between_eval)

lemma rowOK_48: "rowOK 48"
  by (simp add: between_eval)

lemma rowOK_49: "rowOK 49"
  by (simp add: between_eval)

lemma rowOK_50: "rowOK 50"
  by (simp add: between_eval)

lemma rowOK_51: "rowOK 51"
  by (simp add: between_eval)

lemma rowOK_52: "rowOK 52"
  by (simp add: between_eval)

lemma rowOK_53: "rowOK 53"
  by (simp add: between_eval)

lemma rowOK_54: "rowOK 54"
  by (simp add: between_eval)

lemma rowOK_55: "rowOK 55"
  by (simp add: between_eval)

lemma rowOK_56: "rowOK 56"
  by (simp add: between_eval)

lemma rowOK_57: "rowOK 57"
  by (simp add: between_eval)

lemma rowOK_58: "rowOK 58"
  by (simp add: between_eval)

lemma rowOK_59: "rowOK 59"
  by (simp add: between_eval)

lemma rowOK_60: "rowOK 60"
  by (simp add: between_eval)

lemma rowOK_61: "rowOK 61"
  by (simp add: between_eval)

lemma rowOK_62: "rowOK 62"
  by (simp add: between_eval)

lemma rowOK_63: "rowOK 63"
  by (simp add: between_eval)


lemmas rowOK_all = rowOK_0 rowOK_1 rowOK_2 rowOK_3 rowOK_4 rowOK_5 rowOK_6 rowOK_7 rowOK_8 rowOK_9 rowOK_10 rowOK_11 rowOK_12 rowOK_13 rowOK_14 rowOK_15 rowOK_16 rowOK_17 rowOK_18 rowOK_19 rowOK_20 rowOK_21 rowOK_22 rowOK_23 rowOK_24 rowOK_25 rowOK_26 rowOK_27 rowOK_28 rowOK_29 rowOK_30 rowOK_31 rowOK_32 rowOK_33 rowOK_34 rowOK_35 rowOK_36 rowOK_37 rowOK_38 rowOK_39 rowOK_40 rowOK_41 rowOK_42 rowOK_43 rowOK_44 rowOK_45 rowOK_46 rowOK_47 rowOK_48 rowOK_49 rowOK_50 rowOK_51 rowOK_52 rowOK_53 rowOK_54 rowOK_55 rowOK_56 rowOK_57 rowOK_58 rowOK_59 rowOK_60 rowOK_61 rowOK_62 rowOK_63

lemma allSquares_rowOK: "list_all rowOK allSquares"
  by (simp add: allSquares_def rowOK_all)

lemma bit_fold_set_bit:
  fixes w :: "'a::len word"
  assumes "\<forall>s \<in> set sqs. 0 \<le> s"
  shows "bit (fold (\<lambda>s. set_bit (nat s)) sqs w) n
           \<longleftrightarrow> bit w n \<or> (n < LENGTH('a) \<and> int n \<in> set sqs)"
  using assms
proof (induction sqs arbitrary: w)
  case Nil
  then show ?case by simp
next
  case (Cons s sqs)
  have "nat s = n \<longleftrightarrow> s = int n" using Cons.prems by auto
  then show ?case
    using Cons by (auto simp: bit_set_bit_iff dest: bit_imp_le_length)
qed

lemma singleEvaluation_between:
  assumes "0 \<le> a" and "a < 64" and "0 \<le> b" and "b < 64"
  shows "singleEvaluation (word_of_int a) (word_of_int b) = bitboardOf (squaresBetween a b)
          \<and> (\<forall>s \<in> set (squaresBetween a b). 0 \<le> s \<and> s < 64)"
proof -
  have "rowOK a"
    using allSquares_rowOK in_allSquares [OF assms(1,2)] by (simp add: list_all_iff)
  then show ?thesis
    using in_allSquares [OF assms(3,4)] unfolding rowOK_def by (simp add: list_all_iff)
qed

text \<open>
  C8.  For all squares \<open>a\<close> and \<open>b\<close> in 0..63 the table entry is the bitboard of the
  squares strictly between \<open>a\<close> and \<open>b\<close> when they share a rank, a file or a diagonal
  (and differ), and the empty bitboard otherwise.
\<close>

theorem obstructedLUT_between:
  assumes "0 \<le> a" and "a < 64" and "0 \<le> b" and "b < 64"
  shows "\<exists>w. obstructedLUT a b = Inr w
           \<and> (\<forall>s. bit w s \<longleftrightarrow> int s \<in> set (squaresBetween a b))
           \<and> (\<not> sameLine a b \<longrightarrow> w = 0)"
proof -
  let ?w = "bitboardOf (squaresBetween a b)"
  note se = singleEvaluation_between [OF assms]
  have "obstructedLUT a b = Inr ?w"
    using assms se by (simp add: obstructedLUT_def)
  moreover have "bit ?w s \<longleftrightarrow> int s \<in> set (squaresBetween a b)" for s
  proof -
    have "\<forall>s \<in> set (squaresBetween a b). 0 \<le> s" using se by simp
    then have "bit ?w s \<longleftrightarrow> s < 64 \<and> int s \<in> set (squaresBetween a b)"
      unfolding bitboardOf_def by (simp add: bit_fold_set_bit)
    then show ?thesis using se by auto
  qed
  moreover have "\<not> sameLine a b \<longrightarrow> ?w = 0"
    by (simp add: squaresBetween_def bitboardOf_def)
  ultimately show ?thesis by blast
qed

theorem obstructedLUT_between_witness:
  "obstructedLUT 2 16 = Inr 512 \<and> squaresBetween 2 16 = [9]
   \<and> bit (512 :: 64 word) 9 \<and> \<not> bit (512 :: 64 word) 10
   \<and> obstructedLUT 2 17 = Inr 0 \<and> \<not> sameLine 2 17"
proof -
  have r: "(0::int) \<le> 2" "(2::int) < 64" "(0::int) \<le> 16" "(16::int) < 64"
    "(0::int) \<le> 17" "(17::int) < 64" by simp_all
  have s: "squaresBetween 2 16 = [9]"
    by (simp add: squaresBetween_def sameLine_def fileOf_def rankOf_def upto.simps)
  have n: "\<not> sameLine 2 17"
    by (simp add: sameLine_def fileOf_def rankOf_def)
  have e: "obstructedLUT 2 16 = Inr 512"
    by (simp add: obstructedLUT_def singleEvaluation_def mask_numeral)
  obtain w where w: "obstructedLUT 2 16 = Inr w"
      "\<forall>s. bit w s \<longleftrightarrow> int s \<in> set (squaresBetween 2 16)"
    using obstructedLUT_between [OF r(1-4)] by blast
  obtain v where v: "obstructedLUT 2 17 = Inr v" "\<not> sameLine 2 17 \<longrightarrow> v = 0"
    using obstructedLUT_between [OF r(1,2,5,6)] by blast
  have "w = 512" using w(1) e by simp
  then have "bit (512 :: 64 word) 9" and "\<not> bit (512 :: 64 word) 10"
    using w(2) s by simp_all
  then show ?thesis using e v n s by simp
qed


section \<open>Pieces, moves and coordinates\<close>

text \<open>
  Modelled from the spec: \<^verbatim>\<open>Piece.hpp\<close>, \<^verbatim>\<open>Move.hpp\<close> and the coordinate helpers of
  \<^verbatim>\<open>Board\<close> and \<^verbatim>\<open>Utils\<close> are not among the sources; their names and uses are those
  of \<^verbatim>\<open>ChessBot/src/MoveGenerator.cpp\<close>.  The spec gives the piece types
  "None, Pawn, Bishop, Knight, Rook, Queen, King", the two colours, and the fields of a
  move with "promotion (piece type, default None)".  A freshly constructed move has no
  flag set and no auxiliary move; its \<open>enPassantFile\<close> is 0 here, and nothing below
  depends on that value.
\<close>

datatype PieceType = NoneT | Pawn | Bishop | Knight | Rook | Queen | King

datatype PieceColor = White | Black

fun opposite :: "PieceColor \<Rightarrow> PieceColor" where
  "opposite White = Black"
| "opposite Black = White"

record Piece =
  getType :: PieceType
  getColor :: PieceColor

datatype Move =
  Move (startIndex: int) (endIndex: int) (promotionType: PieceType)
       (isCastling: bool) (isEnPassant: bool) (isDoublePawnMove: bool)
       (enPassantFile: int) (auxiliaryMove: "Move option")

definition newMove :: "int \<Rightarrow> int \<Rightarrow> Move" where
  "newMove s e = Move s e NoneT False False False 0 None"

fun setPromotionType :: "PieceType \<Rightarrow> Move \<Rightarrow> Move" where
  "setPromotionType p (Move s e _ c ep d f a) = Move s e p c ep d f a"

fun setIsCastling :: "bool \<Rightarrow> Move \<Rightarrow> Move" where
  "setIsCastling c (Move s e p _ ep d f a) = Move s e p c ep d f a"

fun setIsEnPassant :: "bool \<Rightarrow> Move \<Rightarrow> Move" where
  "setIsEnPassant ep (Move s e p c _ d f a) = Move s e p c ep d f a"

fun setIsDoublePawnMove :: "bool \<Rightarrow> Move \<Rightarrow> Move" where
  "setIsDoublePawnMove d (Move s e p c ep _ f a) = Move s e p c ep d f a"

fun setEnPassantFile :: "int \<Rightarrow> Move \<Rightarrow> Move" where
  "setEnPassantFile f (Move s e p c ep d _ a) = Move s e p c ep d f a"

fun setAuxiliaryMove :: "Move option \<Rightarrow> Move \<Rightarrow> Move" where
  "setAuxiliaryMove a (Move s e p c ep d f _) = Move s e p c ep d f a"

text \<open>
  Modelled from the spec: "a compact index 0..63 (file + 8 * rank) and a padded index
  0..119 for a 10-wide, 12-tall mailbox with two guard rows top and bottom and one guard
  column each side".  The two conversion tables are read without a bounds check; the
  padded-to-compact table holds \<open>-1\<close> on the guard squares.
\<close>

definition mailboxSmallToBig :: "int \<Rightarrow> int" where
  "mailboxSmallToBig s = 21 + s mod 8 + 10 * (s div 8)"

definition onBoard10x12 :: "int \<Rightarrow> bool" where
  "onBoard10x12 t = (21 \<le> t \<and> t \<le> 98 \<and> 1 \<le> t mod 10 \<and> t mod 10 \<le> 8)"

definition mailboxBigToSmall :: "int \<Rightarrow> int" where
  "mailboxBigToSmall t =
     (if onBoard10x12 t then (t mod 10 - 1) + 8 * (t div 10 - 2) else - 1)"

definition to10x12Coords :: "int \<Rightarrow> error + int" where
  "to10x12Coords s =
     (if 0 \<le> s \<and> s < 64 then Inr (mailboxSmallToBig s) else Inl UndefinedBehaviour)"

definition to8x8Coords :: "int \<Rightarrow> error + int" where
  "to8x8Coords t =
     (if 0 \<le> t \<and> t < 120 then Inr (mailboxBigToSmall t) else Inl UndefinedBehaviour)"

definition isOnBoard8x8 :: "int \<Rightarrow> int \<Rightarrow> error + bool" where
  "isOnBoard8x8 square offset =
     bindE (to10x12Coords square) (\<lambda>t.
     bindE (to8x8Coords (t + offset)) (\<lambda>s. Inr (s \<noteq> - 1)))"

definition applyOffset :: "int \<Rightarrow> int \<Rightarrow> error + int" where
  "applyOffset square offset =
     bindE (to10x12Coords square) (\<lambda>t. to8x8Coords (t + offset))"

text \<open>
  Modelled from the spec: \<^verbatim>\<open>Utils::isOnRow\<close>, \<^verbatim>\<open>Utils::getXCoord\<close> ("enPassantFile =
  destination file") and \<^verbatim>\<open>Utils::promotionPieces\<close> ("promotion to Queen, Rook,
  Bishop, Knight").
\<close>

definition isOnRow :: "int \<Rightarrow> int \<Rightarrow> bool" where
  "isOnRow square row = (square div 8 = row)"

definition getXCoord :: "int \<Rightarrow> int" where
  "getXCoord t = t mod 10 - 1"

definition promotionPieces :: "PieceType list" where
  "promotionPieces = [Queen, Rook, Bishop, Knight]"

text \<open>
  The direction offsets of \<^verbatim>\<open>slidingPieceOffsets\<close> (Thera/MoveGenerator.hpp): rook
  directions first, then bishop directions.  Modelled from the spec: the constants of
  \<^verbatim>\<open>Direction\<close> are not among the sources; they are the "padded-index deltas" of the
  eight compass directions, north being the direction of decreasing index, in which the
  white pawns of \<^verbatim>\<open>generatePawnMoves\<close> advance.
\<close>

definition slidingPieceOffsets :: "int list" where
  "slidingPieceOffsets = [- 10, - 1, 1, 10, - 11, - 9, 9, 11]"

text \<open>
  Modelled from the spec: \<^verbatim>\<open>kingKnightOffsets\<close> is not among the sources.  The
  generator reads its entries 0..7 for a king and 8..15 for a knight; the king steps are
  the eight compass directions and the knight jumps are \<^verbatim>\<open>knightOffsets\<close> of
  Thera/MoveGenerator.hpp (N+NE, N+NW, W+NW, W+SW, S+SE, S+SW, E+NE, E+SE).
\<close>

definition kingKnightOffsets :: "int list" where
  "kingKnightOffsets =
     slidingPieceOffsets @ [- 19, - 21, - 12, 8, 21, 19, - 8, 12]"

section \<open>The board (Thera/Board.hpp)\<close>

text \<open>
  \<^verbatim>\<open>Board::BoardState\<close> and the two fields of \<^verbatim>\<open>Board\<close>.  The castling arrays are
  "[can black castle, can white castle]".
\<close>

record BoardState =
  squares :: "Piece list"
  pieceBitboards :: "Bitboard list"
  allPieceBitboard :: Bitboard
  colorToMove :: PieceColor
  canCastleLeft :: "bool list"
  canCastleRight :: "bool list"
  enPassantSquare :: int
  enPassantSquareToCapture :: int

record Board =
  currentState :: BoardState
  rewindStack :: "BoardState list"

text \<open>
  Modelled from the spec: the member functions of \<^verbatim>\<open>Board\<close> are declared in Board.hpp
  and defined in a file that is not among the sources.  "at / placePiece / removePiece:
  direct mailbox access"; \<open>isOccupied\<close> and \<open>isFriendly\<close> are "convenience predicates" on
  the mailbox, and \<open>isFriendly\<close> "does not check occupancy".  The generator passes
  compact indices to \<open>at\<close> and padded indices to \<open>at10x12\<close>, \<open>isOccupied\<close> and
  \<open>isFriendly\<close>.  The index of a piece's bitboard among the sixteen is its type plus 8
  for white.
\<close>

fun colorIndex :: "PieceColor \<Rightarrow> nat" where
  "colorIndex Black = 0"
| "colorIndex White = 1"

fun typeIndex :: "PieceType \<Rightarrow> nat" where
  "typeIndex NoneT = 0"
| "typeIndex Pawn = 1"
| "typeIndex Bishop = 2"
| "typeIndex Knight = 3"
| "typeIndex Rook = 4"
| "typeIndex Queen = 5"
| "typeIndex King = 6"

definition pieceIndex :: "Piece \<Rightarrow> nat" where
  "pieceIndex p = typeIndex (getType p) + 8 * colorIndex (getColor p)"

definition at10x12 :: "Board \<Rightarrow> int \<Rightarrow> error + Piece" where
  "at10x12 board t = at_read (squares (currentState board)) t"

definition at :: "Board \<Rightarrow> int \<Rightarrow> error + Piece" where
  "at board s = bindE (to10x12Coords s) (at10x12 board)"

definition getColorToMove :: "Board \<Rightarrow> PieceColor" where
  "getColorToMove board = colorToMove (currentState board)"

definition Board_isOccupied :: "Board \<Rightarrow> int \<Rightarrow> error + bool" where
  "Board_isOccupied board t = bindE (at10x12 board t) (\<lambda>p. Inr (getType p \<noteq> NoneT))"

definition isFriendly :: "Board \<Rightarrow> int \<Rightarrow> error + bool" where
  "isFriendly board t =
     bindE (at10x12 board t) (\<lambda>p. Inr (getColor p = getColorToMove board))"

definition getCastleLeft :: "Board \<Rightarrow> PieceColor \<Rightarrow> error + bool" where
  "getCastleLeft board c = at_read (canCastleLeft (currentState board)) (int (colorIndex c))"

definition getCastleRight :: "Board \<Rightarrow> PieceColor \<Rightarrow> error + bool" where
  "getCastleRight board c = at_read (canCastleRight (currentState board)) (int (colorIndex c))"

definition getEnPassantSquare :: "Board \<Rightarrow> int" where
  "getEnPassantSquare board = enPassantSquare (currentState board)"

definition getBitboard :: "Board \<Rightarrow> Piece \<Rightarrow> error + Bitboard" where
  "getBitboard board p = at_read (pieceBitboards (currentState board)) (int (pieceIndex p))"

definition getNumPieces :: "bool \<Rightarrow> Bitboard \<Rightarrow> error + nat" where
  "getNumPieces debug bb =
     (if debug \<and> int (popcount (bits bb)) \<noteq> numPieces bb
      then Inl (RuntimeError ''Desync between bitboard and numPieces detected.'')
      else Inr (popcount (bits bb)))"

section \<open>The move generator (ChessBot/src/MoveGenerator.cpp)\<close>

text \<open>
  The generator's only field read or written here is \<^verbatim>\<open>generatedMoves\<close>; every
  function below takes the vector and returns it with the moves it appended.
  \<^verbatim>\<open>emplace_back(to10x12Coords(a), to10x12Coords(b))\<close> is \<open>emplaceMove\<close>.
\<close>

lemma bindE_cong [fundef_cong]:
  "x = y \<Longrightarrow> (\<And>v. y = Inr v \<Longrightarrow> f v = g v) \<Longrightarrow> bindE x f = bindE y g"
  by (auto simp: bindE_def split: sum.splits)

definition emplaceMove :: "int \<Rightarrow> int \<Rightarrow> Move list \<Rightarrow> error + Move list" where
  "emplaceMove a b gm =
     bindE (to10x12Coords a) (\<lambda>s.
     bindE (to10x12Coords b) (\<lambda>e. Inr (gm @ [newMove s e])))"

text \<open>
  The \<^verbatim>\<open>while\<close> loop of \<^verbatim>\<open>generateSlidingMoves\<close> for one direction.  The source reads
  \<^verbatim>\<open>direction = slidingPieceOffsets.at(directionIdx)\<close> once before the loop; here the
  loop carries \<open>directionIdx\<close> and reads the same entry at each turn.
\<close>

function slideWalk :: "Board \<Rightarrow> int \<Rightarrow> int \<Rightarrow> int \<Rightarrow> Move list \<Rightarrow> error + Move list" where
  "slideWalk board square directionIdx pos gm =
     bindE (at_read slidingPieceOffsets directionIdx) (\<lambda>direction.
     bindE (isOnBoard8x8 pos direction) (\<lambda>on.
       if \<not> on then Inr gm
       else
         bindE (applyOffset pos direction) (\<lambda>pos'.
         bindE (at board pos') (\<lambda>p.
           if getType p = NoneT
           then bindE (emplaceMove square pos' gm) (slideWalk board square directionIdx pos')
           else if getColor p = opposite (getColorToMove board)
           then emplaceMove square pos' gm
           else Inr gm))))"
  by pat_completeness auto

lemma mailboxSmallToBig_inverse:
  assumes "onBoard10x12 t"
  shows "mailboxSmallToBig (mailboxBigToSmall t) = t"
proof -
  define f where "f = t mod 10 - 1"
  define r where "r = t div 10 - 2"
  have f: "0 \<le> f" "f < 8" using assms by (auto simp: onBoard10x12_def f_def)
  have t: "21 + f + 10 * r = t" unfolding f_def r_def by (simp add: algebra_simps)
  have s: "mailboxBigToSmall t = f + 8 * r"
    using assms by (simp add: mailboxBigToSmall_def f_def r_def)
  have m: "(f + 8 * r) mod 8 = f" using f by simp
  have d: "(f + 8 * r) div 8 = r" using f by simp
  have "mailboxSmallToBig (f + 8 * r) = 21 + f + 10 * r"
    by (simp only: mailboxSmallToBig_def m d)
  then show ?thesis by (simp only: s t)
qed

lemma applyOffset_step:
  assumes "isOnBoard8x8 pos d = Inr True" and "applyOffset pos d = Inr pos'"
  shows "mailboxSmallToBig pos' = mailboxSmallToBig pos + d"
    and "onBoard10x12 (mailboxSmallToBig pos + d)" and "0 \<le> pos \<and> pos < 64"
proof -
  from assms(1) have p: "0 \<le> pos \<and> pos < 64"
    by (auto simp: isOnBoard8x8_def to10x12Coords_def bindE_def split: if_splits)
  then show "0 \<le> pos \<and> pos < 64" .
  from assms(1) p have on: "onBoard10x12 (mailboxSmallToBig pos + d)"
    by (auto simp: isOnBoard8x8_def to10x12Coords_def to8x8Coords_def bindE_def
        mailboxBigToSmall_def split: if_splits)
  then show "onBoard10x12 (mailboxSmallToBig pos + d)" .
  from assms(2) p have "pos' = mailboxBigToSmall (mailboxSmallToBig pos + d)"
    by (auto simp: applyOffset_def to10x12Coords_def to8x8Coords_def bindE_def split: if_splits)
  then show "mailboxSmallToBig pos' = mailboxSmallToBig pos + d"
    using on by (simp add: mailboxSmallToBig_inverse)
qed

lemma slidingPieceOffsets_nonzero:
  "at_read slidingPieceOffsets i = Inr d \<Longrightarrow> d \<noteq> 0"
  by (auto simp: at_read_def slidingPieceOffsets_def nth_Cons' split: if_splits)

definition slideMeasure :: "int \<Rightarrow> int \<Rightarrow> nat" where
  "slideMeasure directionIdx pos =
     (case at_read slidingPieceOffsets directionIdx of
        Inl _ \<Rightarrow> 0
      | Inr d \<Rightarrow> if 0 < d then nat (120 - mailboxSmallToBig pos)
                 else nat (mailboxSmallToBig pos))"

lemma slideMeasure_decreases:
  assumes "at_read slidingPieceOffsets i = Inr d"
    and "isOnBoard8x8 pos d = Inr True" and "applyOffset pos d = Inr pos'"
  shows "slideMeasure i pos' < slideMeasure i pos"
proof -
  note s = applyOffset_step [OF assms(2,3)]
  have "d \<noteq> 0" using assms(1) by (rule slidingPieceOffsets_nonzero)
  moreover have "21 \<le> mailboxSmallToBig pos + d" "mailboxSmallToBig pos + d \<le> 98"
    using s(2) by (simp_all add: onBoard10x12_def)
  ultimately show ?thesis
    using s(1) assms(1) by (auto simp: slideMeasure_def)
qed

termination slideWalk
proof (relation "measure (\<lambda>(board, square, directionIdx, pos, gm). slideMeasure directionIdx pos)")
  show "wf (measure (\<lambda>(board, square, directionIdx, pos, gm). slideMeasure directionIdx pos))"
    by simp
next
  fix board :: Board and square directionIdx pos :: int and gm :: "Move list"
    and direction on pos' p gm'
  assume "at_read slidingPieceOffsets directionIdx = Inr direction"
    and "isOnBoard8x8 pos direction = Inr on" and "\<not> \<not> on"
    and "applyOffset pos direction = Inr pos'"
  then show "((board, square, directionIdx, pos', gm'), (board, square, directionIdx, pos, gm))
      \<in> measure (\<lambda>(board, square, directionIdx, pos, gm). slideMeasure directionIdx pos)"
    using slideMeasure_decreases [of directionIdx direction pos pos'] by simp
qed

declare slideWalk.simps [simp del]

text \<open>A \<^verbatim>\<open>for\<close> loop over a list that stops at the first error.\<close>

fun foldE :: "('a \<Rightarrow> 's \<Rightarrow> error + 's) \<Rightarrow> 'a list \<Rightarrow> 's \<Rightarrow> error + 's" where
  "foldE f [] s = Inr s"
| "foldE f (x # xs) s = bindE (f x s) (foldE f xs)"

definition generateSlidingMoves :: "Board \<Rightarrow> int \<Rightarrow> Move list \<Rightarrow> error + Move list" where
  "generateSlidingMoves board square gm =
     bindE (at board square) (\<lambda>p.
       if getColor p \<noteq> getColorToMove board then Inr gm
       else if getType p = Rook
       then foldE (\<lambda>directionIdx. slideWalk board square directionIdx square) [0..3] gm
       else if getType p = Bishop
       then foldE (\<lambda>directionIdx. slideWalk board square directionIdx square) [4..7] gm
       else if getType p = Queen
       then foldE (\<lambda>directionIdx. slideWalk board square directionIdx square) [0..7] gm
       else Inr gm)"

definition generateAllSlidingMoves :: "Board \<Rightarrow> Move list \<Rightarrow> error + Move list" where
  "generateAllSlidingMoves board gm = foldE (generateSlidingMoves board) [0..63] gm"

text \<open>One turn of the \<^verbatim>\<open>for\<close> loop of \<^verbatim>\<open>generateKingKnightMoves\<close>.\<close>

definition kingKnightStep :: "Board \<Rightarrow> int \<Rightarrow> int \<Rightarrow> Move list \<Rightarrow> error + Move list" where
  "kingKnightStep board square directionIdx gm =
     bindE (at_read kingKnightOffsets directionIdx) (\<lambda>direction.
     bindE (isOnBoard8x8 square direction) (\<lambda>on.
       if \<not> on then Inr gm
       else
         bindE (applyOffset square direction) (\<lambda>pos.
         bindE (at board pos) (\<lambda>p.
           if getType p = NoneT then emplaceMove square pos gm
           else if getColor p = opposite (getColorToMove board)
           then emplaceMove square pos gm
           else Inr gm))))"

text \<open>
  The castling move of the king on \<open>square\<close> to \<open>square + kingTo\<close>, with the rook's move
  from \<open>square + rookFrom\<close> to \<open>square + rookTo\<close> as its auxiliary move.
\<close>

definition emplaceCastling ::
    "int \<Rightarrow> int \<Rightarrow> int \<Rightarrow> int \<Rightarrow> Move list \<Rightarrow> error + Move list" where
  "emplaceCastling square kingTo rookFrom rookTo gm =
     bindE (to10x12Coords square) (\<lambda>s.
     bindE (bindE (applyOffset square kingTo) to10x12Coords) (\<lambda>e.
     bindE (bindE (applyOffset square rookFrom) to10x12Coords) (\<lambda>rs.
     bindE (bindE (applyOffset square rookTo) to10x12Coords) (\<lambda>re.
       Inr (gm @ [setAuxiliaryMove (Some (newMove rs re))
                    (setIsCastling True (newMove s e))])))))"

text \<open>\<^verbatim>\<open>board.at(Board::applyOffset(square, offset)).getType() == PieceType::None\<close>\<close>

definition isNoneAt :: "Board \<Rightarrow> int \<Rightarrow> int \<Rightarrow> error + bool" where
  "isNoneAt board square offset =
     bindE (applyOffset square offset) (\<lambda>s.
     bindE (at board s) (\<lambda>p. Inr (getType p = NoneT)))"

definition castleRightMoves :: "Board \<Rightarrow> int \<Rightarrow> Move list \<Rightarrow> error + Move list" where
  "castleRightMoves board square gm =
     bindE (at board square) (\<lambda>p.
     bindE (getCastleRight board (getColor p)) (\<lambda>right.
       if \<not> right then Inr gm
       else
         bindE (isNoneAt board square 1) (\<lambda>e1.
           if \<not> e1 then Inr gm
           else
             bindE (isNoneAt board square 2) (\<lambda>e2.
               if \<not> e2 then Inr gm
               else emplaceCastling square 2 3 1 gm))))"

definition castleLeftMoves :: "Board \<Rightarrow> int \<Rightarrow> Move list \<Rightarrow> error + Move list" where
  "castleLeftMoves board square gm =
     bindE (at board square) (\<lambda>p.
     bindE (getCastleLeft board (getColor p)) (\<lambda>left.
       if \<not> left then Inr gm
       else
         bindE (isNoneAt board square (- 1)) (\<lambda>e1.
           if \<not> e1 then Inr gm
           else
             bindE (isNoneAt board square (- 2)) (\<lambda>e2.
               if \<not> e2 then Inr gm
               else
                 bindE (isNoneAt board square (- 3)) (\<lambda>e3.
                   if \<not> e3 then Inr gm
                   else emplaceCastling square (- 2) (- 4) (- 1) gm)))))"

definition generateKingKnightMoves :: "Board \<Rightarrow> int \<Rightarrow> Move list \<Rightarrow> error + Move list" where
  "generateKingKnightMoves board square gm =
     bindE (at board square) (\<lambda>p.
       if getColor p \<noteq> getColorToMove board then Inr gm
       else if getType p = King
       then
         bindE (foldE (kingKnightStep board square) [0..7] gm) (\<lambda>gm1.
         bindE (castleRightMoves board square gm1) (castleLeftMoves board square))
       else if getType p = Knight
       then foldE (kingKnightStep board square) [8..15] gm
       else Inr gm)"

text \<open>
  The squares of one piece bitboard, as the generator walks them: the first
  \<^verbatim>\<open>getNumPieces()\<close> entries of the array of pieces.  The generator's
  \<^verbatim>\<open>getPieces8x8\<close> is \<open>getPieces\<close> of Bitboard.hpp on a \<^verbatim>\<open>Bitboard<12>\<close>.
\<close>

definition piecesOf :: "bool \<Rightarrow> Board \<Rightarrow> PieceType \<Rightarrow> error + int list" where
  "piecesOf debug board t =
     bindE (getBitboard board \<lparr>getType = t, getColor = getColorToMove board\<rparr>) (\<lambda>bitboard.
     bindE (getPieces debug 12 bitboard) (\<lambda>squares.
     bindE (getNumPieces debug bitboard) (\<lambda>n. Inr (take n squares))))"

definition generateAllKingKnightMoves :: "bool \<Rightarrow> Board \<Rightarrow> Move list \<Rightarrow> error + Move list" where
  "generateAllKingKnightMoves debug board gm =
     bindE (piecesOf debug board King) (\<lambda>kings.
     bindE (foldE (generateKingKnightMoves board) kings gm) (\<lambda>gm1.
     bindE (piecesOf debug board Knight) (\<lambda>knights.
       foldE (generateKingKnightMoves board) knights gm1)))"

definition addPawnMove :: "Move \<Rightarrow> Board \<Rightarrow> Move list \<Rightarrow> error + Move list" where
  "addPawnMove move board gm =
     bindE (at10x12 board (startIndex move)) (\<lambda>p.
     bindE (to8x8Coords (endIndex move)) (\<lambda>e.
       if isOnRow e (if getColor p = White then 0 else 7)
       then Inr (gm @ map (\<lambda>promotionType. setPromotionType promotionType move) promotionPieces)
       else Inr (gm @ [move])))"

text \<open>The blocks of \<^verbatim>\<open>generatePawnMoves\<close>: the pushes, one capture, the en passant capture.\<close>

definition pawnPushes :: "Board \<Rightarrow> int \<Rightarrow> int \<Rightarrow> int \<Rightarrow> Move list \<Rightarrow> error + Move list" where
  "pawnPushes board square baseLine direction10x12 gm =
     bindE (bindE (applyOffset square direction10x12) to10x12Coords) (\<lambda>t1.
     bindE (Board_isOccupied board t1) (\<lambda>occ1.
       if occ1 then Inr gm
       else
         bindE (to10x12Coords square) (\<lambda>s.
         bindE (addPawnMove (newMove s t1) board gm) (\<lambda>gm1.
           if \<not> isOnRow square baseLine then Inr gm1
           else
             bindE (bindE (applyOffset square (direction10x12 * 2)) to10x12Coords) (\<lambda>t2.
             bindE (Board_isOccupied board t2) (\<lambda>occ2.
               if occ2 then Inr gm1
               else addPawnMove
                      (setIsDoublePawnMove True (setEnPassantFile (getXCoord t2) (newMove s t2)))
                      board gm1))))))"

definition pawnCapture :: "Board \<Rightarrow> int \<Rightarrow> int \<Rightarrow> Move list \<Rightarrow> error + Move list" where
  "pawnCapture board square offset gm =
     bindE (isOnBoard8x8 square offset) (\<lambda>on.
       if \<not> on then Inr gm
       else
         bindE (bindE (applyOffset square offset) to10x12Coords) (\<lambda>t.
         bindE (Board_isOccupied board t) (\<lambda>occ.
           if \<not> occ then Inr gm
           else
             bindE (isFriendly board t) (\<lambda>friendly.
               if friendly then Inr gm
               else bindE (to10x12Coords square) (\<lambda>s. addPawnMove (newMove s t) board gm)))))"

text \<open>
  \<^verbatim>\<open>isOnBoard8x8(square, side) && getEnPassantSquare() == to10x12Coords(applyOffset(square, side))\<close>
\<close>

definition enPassantBeside :: "Board \<Rightarrow> int \<Rightarrow> int \<Rightarrow> error + bool" where
  "enPassantBeside board square side =
     bindE (isOnBoard8x8 square side) (\<lambda>on.
       if \<not> on then Inr False
       else
         bindE (bindE (applyOffset square side) to10x12Coords) (\<lambda>t.
           Inr (getEnPassantSquare board = t)))"

definition addEnPassant :: "Board \<Rightarrow> int \<Rightarrow> int \<Rightarrow> Move list \<Rightarrow> error + Move list" where
  "addEnPassant board square offset gm =
     bindE (to10x12Coords square) (\<lambda>s.
     bindE (bindE (applyOffset square offset) to10x12Coords) (\<lambda>t.
       addPawnMove (setIsEnPassant True (newMove s t)) board gm))"

definition pawnEnPassant :: "Board \<Rightarrow> int \<Rightarrow> int \<Rightarrow> Move list \<Rightarrow> error + Move list" where
  "pawnEnPassant board square direction10x12 gm =
     bindE (enPassantBeside board square (- 1)) (\<lambda>left.
       if left then addEnPassant board square (direction10x12 - 1) gm
       else
         bindE (enPassantBeside board square 1) (\<lambda>right.
           if right then addEnPassant board square (direction10x12 + 1) gm
           else Inr gm))"

definition generatePawnMoves :: "Board \<Rightarrow> int \<Rightarrow> Move list \<Rightarrow> error + Move list" where
  "generatePawnMoves board square gm =
     bindE (at board square) (\<lambda>p.
       if getColor p \<noteq> getColorToMove board then Inr gm
       else if getType p \<noteq> Pawn then Inr gm
       else
         let baseLine = (if getColor p = White then 6 else 1);
             direction10x12 = (if getColor p = White then - 10 else 10)
         in
           bindE (pawnPushes board square baseLine direction10x12 gm) (\<lambda>gm1.
           bindE (pawnCapture board square (direction10x12 - 1) gm1) (\<lambda>gm2.
           bindE (pawnCapture board square (direction10x12 + 1) gm2) (\<lambda>gm3.
             pawnEnPassant board square direction10x12 gm3))))"

definition generateAllPawnMoves :: "bool \<Rightarrow> Board \<Rightarrow> Move list \<Rightarrow> error + Move list" where
  "generateAllPawnMoves debug board gm =
     bindE (piecesOf debug board Pawn) (\<lambda>pawns. foldE (generatePawnMoves board) pawns gm)"

record MoveGenerator =
  generatedMoves :: "Move list"

text \<open>
  \<^verbatim>\<open>generateAllMoves\<close> clears \<^verbatim>\<open>generatedMoves\<close>, runs the three generators on it and
  returns a copy of the vector; the generator keeps the vector.
\<close>

definition generateAllMoves ::
    "bool \<Rightarrow> MoveGenerator \<Rightarrow> Board \<Rightarrow> error + (Move list \<times> MoveGenerator)" where
  "generateAllMoves debug gen board =
     (let cleared = gen\<lparr>generatedMoves := []\<rparr> in
      bindE (generateAllSlidingMoves board (generatedMoves cleared)) (\<lambda>gm1.
      bindE (generateAllKingKnightMoves debug board gm1) (\<lambda>gm2.
      bindE (generateAllPawnMoves debug board gm2) (\<lambda>gm3.
        Inr (gm3, cleared\<lparr>generatedMoves := gm3\<rparr>)))))"

section \<open>Promotion\<close>



section \<open>Sliding pieces\<close>

text \<open>
  The squares in one direction from a square, nearest first, as the table
  \<^verbatim>\<open>squaresInDirection\<close> of Thera/MoveGenerator.hpp lists them (at most seven): the walk
  from the square by the direction's offset, as long as it stays on the board.
\<close>

fun ray :: "nat \<Rightarrow> int \<Rightarrow> int \<Rightarrow> int list" where
  "ray 0 t d = []"
| "ray (Suc n) t d =
     (if onBoard10x12 (t + d) then mailboxBigToSmall (t + d) # ray n (t + d) d else [])"

definition squaresInDirection :: "int \<Rightarrow> int \<Rightarrow> int list" where
  "squaresInDirection square d = ray 7 (mailboxSmallToBig square) d"

text \<open>
  What the spec says of one ray: a move for each empty square, one capture and stop on an
  enemy piece, stop on a friendly piece without a move.
\<close>

definition isEmptySquare :: "Board \<Rightarrow> int \<Rightarrow> bool" where
  "isEmptySquare board s = (case at board s of Inl _ \<Rightarrow> False | Inr p \<Rightarrow> getType p = NoneT)"

definition isEnemySquare :: "Board \<Rightarrow> int \<Rightarrow> bool" where
  "isEnemySquare board s =
     (case at board s of Inl _ \<Rightarrow> False
      | Inr p \<Rightarrow> getType p \<noteq> NoneT \<and> getColor p = opposite (getColorToMove board))"

definition rayTargets :: "Board \<Rightarrow> int list \<Rightarrow> int list" where
  "rayTargets board sqs =
     takeWhile (isEmptySquare board) sqs
     @ (case dropWhile (isEmptySquare board) sqs of
          [] \<Rightarrow> []
        | s # _ \<Rightarrow> if isEnemySquare board s then [s] else [])"

definition directionsOf :: "PieceType \<Rightarrow> int list" where
  "directionsOf t =
     (if t = Rook then take 4 slidingPieceOffsets
      else if t = Bishop then drop 4 slidingPieceOffsets
      else if t = Queen then slidingPieceOffsets
      else [])"

definition slidingMovesOf :: "Board \<Rightarrow> int \<Rightarrow> int \<Rightarrow> Move list" where
  "slidingMovesOf board square d =
     map (\<lambda>s. newMove (mailboxSmallToBig square) (mailboxSmallToBig s))
       (rayTargets board (squaresInDirection square d))"

lemma mod10_aux:
  fixes m q :: int
  shows "0 \<le> m \<Longrightarrow> m < 8 \<Longrightarrow> (21 + m + 10 * q) mod 10 = 1 + m"
  by presburger

lemma mailboxSmallToBig_onBoard:
  assumes "0 \<le> s" and "s < 64"
  shows "onBoard10x12 (mailboxSmallToBig s)"
proof -
  define m where "m = s mod 8"
  define q where "q = s div 8"
  have q: "0 \<le> q" "q \<le> 7" using assms by (auto simp: q_def)
  have m: "0 \<le> m" "m < 8" by (auto simp: m_def)
  have "(21 + m + 10 * q) mod 10 = 1 + m"
    using m by (rule mod10_aux)
  then have "onBoard10x12 (21 + m + 10 * q)"
    using q m by (simp add: onBoard10x12_def)
  then show ?thesis
    by (simp only: mailboxSmallToBig_def m_def q_def)
qed

lemma mailboxBigToSmall_range:
  assumes "onBoard10x12 t"
  shows "0 \<le> mailboxBigToSmall t \<and> mailboxBigToSmall t < 64"
proof -
  have "2 \<le> t div 10" "t div 10 \<le> 9" using assms by (auto simp: onBoard10x12_def)
  then show ?thesis using assms by (auto simp: onBoard10x12_def mailboxBigToSmall_def)
qed

lemma step_on:
  assumes "0 \<le> pos" and "pos < 64" and "onBoard10x12 (mailboxSmallToBig pos + d)"
  shows "isOnBoard8x8 pos d = Inr True"
    and "applyOffset pos d = Inr (mailboxBigToSmall (mailboxSmallToBig pos + d))"
  using assms mailboxBigToSmall_range [OF assms(3)]
  by (auto simp: isOnBoard8x8_def applyOffset_def to10x12Coords_def to8x8Coords_def bindE_def
      onBoard10x12_def)

lemma step_off:
  assumes "0 \<le> pos" and "pos < 64" and "\<not> onBoard10x12 (mailboxSmallToBig pos + d)"
    and "- 21 \<le> d" and "d \<le> 21"
  shows "isOnBoard8x8 pos d = Inr False"
proof -
  have "onBoard10x12 (mailboxSmallToBig pos)" using assms(1,2) by (rule mailboxSmallToBig_onBoard)
  then have "0 \<le> mailboxSmallToBig pos + d" "mailboxSmallToBig pos + d < 120"
    using assms(4,5) by (auto simp: onBoard10x12_def)
  then show ?thesis
    using assms(1,2,3)
    by (simp add: isOnBoard8x8_def to10x12Coords_def to8x8Coords_def bindE_def
        mailboxBigToSmall_def)
qed

lemma at_total:
  assumes "length (squares (currentState board)) = 120" and "0 \<le> s" and "s < 64"
  shows "\<exists>p. at board s = Inr p"
proof -
  have "onBoard10x12 (mailboxSmallToBig s)" using assms(2,3) by (rule mailboxSmallToBig_onBoard)
  then show ?thesis
    using assms by (simp add: at_def to10x12Coords_def bindE_def at10x12_def at_read_def
        onBoard10x12_def)
qed

lemma slidingPieceOffsets_bounds:
  assumes "at_read slidingPieceOffsets i = Inr d"
  shows "- 21 \<le> d \<and> d \<le> 21"
  using assms by (auto simp: at_read_def slidingPieceOffsets_def nth_Cons' split: if_splits)

lemma slideWalk_ray:
  assumes len: "length (squares (currentState board)) = 120"
    and sq: "0 \<le> square" "square < 64"
    and d: "at_read slidingPieceOffsets directionIdx = Inr d"
  shows "0 \<le> pos \<Longrightarrow> pos < 64 \<Longrightarrow>
         ray (Suc n) (mailboxSmallToBig pos) d = ray n (mailboxSmallToBig pos) d \<Longrightarrow>
         slideWalk board square directionIdx pos gm =
           Inr (gm @ map (\<lambda>s. newMove (mailboxSmallToBig square) (mailboxSmallToBig s))
                      (rayTargets board (ray n (mailboxSmallToBig pos) d)))"
proof (induction n arbitrary: pos gm)
  case 0
  then have "\<not> onBoard10x12 (mailboxSmallToBig pos + d)" by (simp split: if_splits)
  then have "isOnBoard8x8 pos d = Inr False"
    using 0 slidingPieceOffsets_bounds [OF d] by (intro step_off) simp_all
  then show ?case
    by (subst slideWalk.simps) (simp add: d bindE_def rayTargets_def)
next
  case (Suc n)
  let ?t = "mailboxSmallToBig pos"
  show ?case
  proof (cases "onBoard10x12 (?t + d)")
    case False
    then have "isOnBoard8x8 pos d = Inr False"
      using Suc.prems slidingPieceOffsets_bounds [OF d] by (intro step_off) simp_all
    then show ?thesis
      using False by (subst slideWalk.simps) (simp add: d bindE_def rayTargets_def)
  next
    case True
    define pos' where "pos' = mailboxBigToSmall (?t + d)"
    have on: "isOnBoard8x8 pos d = Inr True" and ap: "applyOffset pos d = Inr pos'"
      unfolding pos'_def using Suc.prems(1,2) True by (rule step_on)+
    have r': "0 \<le> pos'" "pos' < 64"
      unfolding pos'_def using mailboxBigToSmall_range [OF True] by simp_all
    have big': "mailboxSmallToBig pos' = ?t + d"
      unfolding pos'_def using True by (rule mailboxSmallToBig_inverse)
    obtain p where p: "at board pos' = Inr p" using at_total [OF len r'] by blast
    have em: "emplaceMove square pos' gm = Inr (gm @ [newMove (mailboxSmallToBig square) (mailboxSmallToBig pos')])"
      using sq r' by (simp add: emplaceMove_def to10x12Coords_def bindE_def)
    have rs: "ray (Suc n) ?t d = pos' # ray n (?t + d) d"
      using True by (simp add: pos'_def)
    have "ray (Suc (Suc n)) ?t d = pos' # ray (Suc n) (?t + d) d"
      using True by (simp add: pos'_def)
    then have "ray (Suc n) (?t + d) d = ray n (?t + d) d"
      using Suc.prems(3) rs by (simp del: ray.simps)
    then have complete': "ray (Suc n) (mailboxSmallToBig pos') d = ray n (mailboxSmallToBig pos') d"
      by (simp only: big')
    note IH = Suc.IH [OF r' complete', unfolded big']
    have step: "slideWalk board square directionIdx pos gm =
        (if getType p = NoneT
         then bindE (emplaceMove square pos' gm) (slideWalk board square directionIdx pos')
         else if getColor p = opposite (getColorToMove board)
         then emplaceMove square pos' gm
         else Inr gm)"
      by (subst slideWalk.simps) (simp add: d on ap p bindE_def)
    show ?thesis
    proof (cases "getType p = NoneT")
      case True
      then have e: "isEmptySquare board pos'" using p by (simp add: isEmptySquare_def)
      have t: "rayTargets board (pos' # ray n (?t + d) d)
                 = pos' # rayTargets board (ray n (?t + d) d)"
        using e by (simp add: rayTargets_def)
      show ?thesis
        unfolding step rs t using True em IH by (simp add: bindE_def)
    next
      case False
      then have e: "\<not> isEmptySquare board pos'" using p by (simp add: isEmptySquare_def)
      have en: "isEnemySquare board pos' \<longleftrightarrow> getColor p = opposite (getColorToMove board)"
        using p False by (simp add: isEnemySquare_def)
      have t: "rayTargets board (pos' # ray n (?t + d) d)
                 = (if isEnemySquare board pos' then [pos'] else [])"
        using e by (simp add: rayTargets_def)
      show ?thesis
        unfolding step rs t using False em en by simp
    qed
  qed
qed


text \<open>A ray from a square of the board has at most seven squares.\<close>

definition edgeDistance :: "int \<Rightarrow> int \<Rightarrow> nat" where
  "edgeDistance d t =
     (if d = 1 \<or> d = 11 \<or> d = - 9 then nat (8 - t mod 10)
      else if d = - 1 \<or> d = 9 \<or> d = - 11 then nat (t mod 10 - 1)
      else if d = 10 then nat (9 - t div 10)
      else nat (t div 10 - 2))"

lemma coord_step:
  fixes t dx dy :: int
  assumes "0 \<le> t mod 10 + dx" and "t mod 10 + dx < 10"
  shows "(t + (dx + 10 * dy)) mod 10 = t mod 10 + dx"
    and "(t + (dx + 10 * dy)) div 10 = t div 10 + dy"
proof -
  define q where "q = t div 10"
  define m where "m = t mod 10"
  have t: "t = 10 * q + m" by (simp add: q_def m_def)
  have e: "t + (dx + 10 * dy) = 10 * (q + dy) + (m + dx)"
    by (simp add: t algebra_simps)
  have b: "0 \<le> m + dx" "m + dx < 10" using assms by (simp_all add: m_def)
  have "(t + (dx + 10 * dy)) mod 10 = m + dx" using e b by (rule int_mod_pos_eq)
  then show "(t + (dx + 10 * dy)) mod 10 = t mod 10 + dx" by (simp only: m_def)
  have "(t + (dx + 10 * dy)) div 10 = q + dy" using e b by (rule int_div_pos_eq)
  then show "(t + (dx + 10 * dy)) div 10 = t div 10 + dy" by (simp only: q_def)
qed

lemma onBoard10x12_coords:
  assumes "onBoard10x12 t"
  shows "1 \<le> t mod 10" and "t mod 10 \<le> 8" and "2 \<le> t div 10" and "t div 10 \<le> 9"
proof -
  show "1 \<le> t mod 10" "t mod 10 \<le> 8" using assms by (simp_all add: onBoard10x12_def)
  have "21 \<le> t" "t \<le> 98" using assms by (simp_all add: onBoard10x12_def)
  then show "2 \<le> t div 10" "t div 10 \<le> 9" by presburger+
qed

lemma edgeDistance_aux:
  fixes t dx dy :: int
  assumes "d = dx + 10 * dy" and "- 1 \<le> dx" and "dx \<le> 1"
    and "onBoard10x12 t" and "onBoard10x12 (t + d)"
  shows "(t + d) mod 10 = t mod 10 + dx" and "(t + d) div 10 = t div 10 + dy"
    and "1 \<le> (t + d) mod 10" and "(t + d) mod 10 \<le> 8"
    and "2 \<le> (t + d) div 10" and "(t + d) div 10 \<le> 9"
proof -
  note c = onBoard10x12_coords [OF assms(4)]
  have b: "0 \<le> t mod 10 + dx" "t mod 10 + dx < 10"
    using c(1,2) assms(2,3) by simp_all
  show "(t + d) mod 10 = t mod 10 + dx" unfolding assms(1) using b by (rule coord_step(1))
  show "(t + d) div 10 = t div 10 + dy" unfolding assms(1) using b by (rule coord_step(2))
  show "1 \<le> (t + d) mod 10" "(t + d) mod 10 \<le> 8"
    "2 \<le> (t + d) div 10" "(t + d) div 10 \<le> 9"
    using onBoard10x12_coords [OF assms(5)] by simp_all
qed

lemma nat_down:
  fixes x y lo :: int
  shows "y = x + - 1 \<Longrightarrow> lo \<le> y \<Longrightarrow> Suc (nat (y - lo)) \<le> nat (x - lo)"
  by simp

lemma nat_up:
  fixes x y hi :: int
  shows "y = x + 1 \<Longrightarrow> y \<le> hi \<Longrightarrow> Suc (nat (hi - y)) \<le> nat (hi - x)"
  by simp

lemma edgeDistance_step:
  assumes "d \<in> set slidingPieceOffsets" and "onBoard10x12 t" and "onBoard10x12 (t + d)"
  shows "Suc (edgeDistance d (t + d)) \<le> edgeDistance d t"
proof -
  from assms(1) consider "d = - 10" | "d = - 1" | "d = 1" | "d = 10"
    | "d = - 11" | "d = - 9" | "d = 9" | "d = 11"
    by (auto simp: slidingPieceOffsets_def)
  then show ?thesis
  proof cases
    case 1
    have "d = 0 + 10 * (- 1)" using 1 by simp
    note a = edgeDistance_aux [OF this _ _ assms(2,3)]
    have e: "edgeDistance d (t + d) = nat ((t + d) div 10 - 2)" "edgeDistance d t = nat (t div 10 - 2)"
      using 1 by (simp_all add: edgeDistance_def)
    have "Suc (nat ((t + d) div 10 - 2)) \<le> nat (t div 10 - 2)"
      using a(2) a(5) by (intro nat_down) simp_all
    then show ?thesis by (simp only: e)
  next
    case 2
    have "d = (- 1) + 10 * 0" using 2 by simp
    note a = edgeDistance_aux [OF this _ _ assms(2,3)]
    have e: "edgeDistance d (t + d) = nat ((t + d) mod 10 - 1)" "edgeDistance d t = nat (t mod 10 - 1)"
      using 2 by (simp_all add: edgeDistance_def)
    have "Suc (nat ((t + d) mod 10 - 1)) \<le> nat (t mod 10 - 1)"
      using a(1) a(3) by (intro nat_down) simp_all
    then show ?thesis by (simp only: e)
  next
    case 3
    have "d = 1 + 10 * 0" using 3 by simp
    note a = edgeDistance_aux [OF this _ _ assms(2,3)]
    have e: "edgeDistance d (t + d) = nat (8 - (t + d) mod 10)" "edgeDistance d t = nat (8 - t mod 10)"
      using 3 by (simp_all add: edgeDistance_def)
    have "Suc (nat (8 - (t + d) mod 10)) \<le> nat (8 - t mod 10)"
      using a(1) a(4) by (intro nat_up) simp_all
    then show ?thesis by (simp only: e)
  next
    case 4
    have "d = 0 + 10 * 1" using 4 by simp
    note a = edgeDistance_aux [OF this _ _ assms(2,3)]
    have e: "edgeDistance d (t + d) = nat (9 - (t + d) div 10)" "edgeDistance d t = nat (9 - t div 10)"
      using 4 by (simp_all add: edgeDistance_def)
    have "Suc (nat (9 - (t + d) div 10)) \<le> nat (9 - t div 10)"
      using a(2) a(6) by (intro nat_up) simp_all
    then show ?thesis by (simp only: e)
  next
    case 5
    have "d = (- 1) + 10 * (- 1)" using 5 by simp
    note a = edgeDistance_aux [OF this _ _ assms(2,3)]
    have e: "edgeDistance d (t + d) = nat ((t + d) mod 10 - 1)" "edgeDistance d t = nat (t mod 10 - 1)"
      using 5 by (simp_all add: edgeDistance_def)
    have "Suc (nat ((t + d) mod 10 - 1)) \<le> nat (t mod 10 - 1)"
      using a(1) a(3) by (intro nat_down) simp_all
    then show ?thesis by (simp only: e)
  next
    case 6
    have "d = 1 + 10 * (- 1)" using 6 by simp
    note a = edgeDistance_aux [OF this _ _ assms(2,3)]
    have e: "edgeDistance d (t + d) = nat (8 - (t + d) mod 10)" "edgeDistance d t = nat (8 - t mod 10)"
      using 6 by (simp_all add: edgeDistance_def)
    have "Suc (nat (8 - (t + d) mod 10)) \<le> nat (8 - t mod 10)"
      using a(1) a(4) by (intro nat_up) simp_all
    then show ?thesis by (simp only: e)
  next
    case 7
    have "d = (- 1) + 10 * 1" using 7 by simp
    note a = edgeDistance_aux [OF this _ _ assms(2,3)]
    have e: "edgeDistance d (t + d) = nat ((t + d) mod 10 - 1)" "edgeDistance d t = nat (t mod 10 - 1)"
      using 7 by (simp_all add: edgeDistance_def)
    have "Suc (nat ((t + d) mod 10 - 1)) \<le> nat (t mod 10 - 1)"
      using a(1) a(3) by (intro nat_down) simp_all
    then show ?thesis by (simp only: e)
  next
    case 8
    have "d = 1 + 10 * 1" using 8 by simp
    note a = edgeDistance_aux [OF this _ _ assms(2,3)]
    have e: "edgeDistance d (t + d) = nat (8 - (t + d) mod 10)" "edgeDistance d t = nat (8 - t mod 10)"
      using 8 by (simp_all add: edgeDistance_def)
    have "Suc (nat (8 - (t + d) mod 10)) \<le> nat (8 - t mod 10)"
      using a(1) a(4) by (intro nat_up) simp_all
    then show ?thesis by (simp only: e)
  qed
qed

lemma nat_span:
  fixes x lo :: int
  shows "lo \<le> x \<Longrightarrow> x \<le> lo + 7 \<Longrightarrow> nat (x - lo) \<le> 7 \<and> nat (lo + 7 - x) \<le> 7"
  by linarith

lemma edgeDistance_le:
  assumes "d \<in> set slidingPieceOffsets" and "onBoard10x12 t"
  shows "edgeDistance d t \<le> 7"
proof -
  note c = onBoard10x12_coords [OF assms(2)]
  have "nat (t mod 10 - 1) \<le> 7 \<and> nat (1 + 7 - t mod 10) \<le> 7"
    using c(1,2) by (intro nat_span) simp_all
  moreover have "nat (t div 10 - 2) \<le> 7 \<and> nat (2 + 7 - t div 10) \<le> 7"
    using c(3,4) by (intro nat_span) simp_all
  ultimately show ?thesis by (simp add: edgeDistance_def)
qed

lemma length_ray:
  assumes "d \<in> set slidingPieceOffsets"
  shows "onBoard10x12 t \<Longrightarrow> length (ray n t d) \<le> edgeDistance d t"
proof (induction n arbitrary: t)
  case 0
  then show ?case by simp
next
  case (Suc n)
  show ?case
  proof (cases "onBoard10x12 (t + d)")
    case True
    from Suc.IH [OF True] edgeDistance_step [OF assms Suc.prems True]
    show ?thesis using True by simp
  next
    case False
    then show ?thesis by simp
  qed
qed

lemma ray_fuel:
  "length (ray (Suc n) t d) \<le> n \<Longrightarrow> ray (Suc n) t d = ray n t d"
proof (induction n arbitrary: t)
  case 0
  then show ?case by (simp split: if_splits)
next
  case (Suc n)
  show ?case
  proof (cases "onBoard10x12 (t + d)")
    case True
    then have "length (ray (Suc n) (t + d) d) \<le> n" using Suc.prems by simp
    from Suc.IH [OF this] True show ?thesis by simp
  next
    case False
    then show ?thesis by simp
  qed
qed

lemma ray_complete:
  assumes "d \<in> set slidingPieceOffsets" and "0 \<le> s" and "s < 64"
  shows "ray (Suc 7) (mailboxSmallToBig s) d = ray 7 (mailboxSmallToBig s) d"
proof -
  have on: "onBoard10x12 (mailboxSmallToBig s)" using assms(2,3) by (rule mailboxSmallToBig_onBoard)
  have "length (ray (Suc 7) (mailboxSmallToBig s) d) \<le> 7"
    using length_ray [OF assms(1) on] edgeDistance_le [OF assms(1) on] by (rule order_trans)
  then show ?thesis by (rule ray_fuel)
qed

lemma slideWalk_direction:
  assumes "length (squares (currentState board)) = 120"
    and "0 \<le> square" and "square < 64"
    and "at_read slidingPieceOffsets directionIdx = Inr d"
  shows "slideWalk board square directionIdx square gm = Inr (gm @ slidingMovesOf board square d)"
proof -
  have "d \<in> set slidingPieceOffsets"
    using assms(4) by (auto simp: at_read_def split: if_splits)
  then have "ray (Suc 7) (mailboxSmallToBig square) d = ray 7 (mailboxSmallToBig square) d"
    using assms(2,3) by (rule ray_complete)
  from slideWalk_ray [OF assms assms(2,3) this]
  show ?thesis by (simp add: slidingMovesOf_def squaresInDirection_def)
qed

lemma foldE_slideWalk:
  assumes "length (squares (currentState board)) = 120"
    and "0 \<le> square" and "square < 64"
    and "\<forall>i \<in> set idxs. 0 \<le> i \<and> i < 8"
  shows "foldE (\<lambda>directionIdx. slideWalk board square directionIdx square) idxs gm =
           Inr (gm @ concat (map (\<lambda>i. slidingMovesOf board square (slidingPieceOffsets ! nat i)) idxs))"
  using assms(4)
proof (induction idxs arbitrary: gm)
  case Nil
  then show ?case by simp
next
  case (Cons i idxs)
  have "at_read slidingPieceOffsets i = Inr (slidingPieceOffsets ! nat i)"
    using Cons.prems by (simp add: at_read_def slidingPieceOffsets_def)
  from slideWalk_direction [OF assms(1-3) this] Cons
  show ?case by (simp add: bindE_def)
qed

text \<open>
  C6.  On a board whose mailbox has the 120 entries of its array type, for a rook, bishop
  or queen of the side to move on \<open>square\<close>, \<open>generateSlidingMoves\<close> appends,
  for each direction of the piece's type in turn (rook: the first four entries of
  \<open>slidingPieceOffsets\<close>; bishop: the last four; queen: all eight), the moves to the
  squares of that ray in order of increasing distance: every empty square up to the first
  occupied one, then that square if an enemy piece stands on it, and nothing beyond it or
  beyond the board edge.
\<close>

theorem generateSlidingMoves_rays:
  assumes "length (squares (currentState board)) = 120"
    and "at board square = Inr p"
    and "getColor p = getColorToMove board"
    and "getType p = Rook \<or> getType p = Bishop \<or> getType p = Queen"
  shows "generateSlidingMoves board square gm =
           Inr (gm @ concat (map (slidingMovesOf board square) (directionsOf (getType p))))"
proof -
  have sq: "0 \<le> square" "square < 64"
    using assms(2) by (auto simp: at_def to10x12Coords_def bindE_def split: if_splits)
  have u03: "[0..3] = [0, 1, 2, 3::int]" and u47: "[4..7] = [4, 5, 6, 7::int]"
    and u07: "[0..7] = [0, 1, 2, 3, 4, 5, 6, 7::int]"
    by (simp_all add: upto.simps)
  note f = foldE_slideWalk [OF assms(1) sq]
  consider "getType p = Rook" | "getType p = Bishop" | "getType p = Queen"
    using assms(4) by blast
  then show ?thesis
  proof cases
    case 1
    then show ?thesis
      using assms(2,3) f [of "[0..3]" gm]
      by (simp add: generateSlidingMoves_def bindE_def directionsOf_def u03
          slidingPieceOffsets_def)
  next
    case 2
    then show ?thesis
      using assms(2,3) f [of "[4..7]" gm]
      by (simp add: generateSlidingMoves_def bindE_def directionsOf_def u47
          slidingPieceOffsets_def)
  next
    case 3
    then show ?thesis
      using assms(2,3) f [of "[0..7]" gm]
      by (simp add: generateSlidingMoves_def bindE_def directionsOf_def u07
          slidingPieceOffsets_def)
  qed
qed

section \<open>Determinism of the generator\<close>

text \<open>
  C10.  The result of \<open>generateAllMoves\<close> does not depend on what the generator held
  before the call, and a second call on the same board, on the generator as the first
  call left it, returns the same list of moves.
\<close>

theorem generateAllMoves_deterministic:
  "map_sum id fst (generateAllMoves debug gen1 board)
     = map_sum id fst (generateAllMoves debug gen2 board)
   \<and> (generateAllMoves debug gen board = Inr (ms, gen') \<longrightarrow>
        generateAllMoves debug gen' board = Inr (ms, gen') \<and> generatedMoves gen' = ms)"
  by (auto simp: generateAllMoves_def Let_def bindE_def split: sum.splits)

section \<open>Applying and rewinding moves\<close>

text \<open>
  Modelled from the spec: \<^verbatim>\<open>Board::placePiece\<close>, \<^verbatim>\<open>removePiece\<close>, \<^verbatim>\<open>removeCastlings\<close>,
  \<^verbatim>\<open>switchPerspective\<close>, \<^verbatim>\<open>applyMove\<close> and \<^verbatim>\<open>rewindMove\<close> are declared in Board.hpp
  and defined in a file that is not among the sources.  They follow the spec's section
  4.2 and its "applyMove protocol"; squares are padded indices, as in a move, the
  mailbox is indexed by them and the bitboards by the compact index.
\<close>

definition setCurrentState :: "BoardState \<Rightarrow> Board \<Rightarrow> Board" where
  "setCurrentState st board = board\<lparr>currentState := st\<rparr>"

definition Board_placePiece :: "bool \<Rightarrow> Board \<Rightarrow> int \<Rightarrow> Piece \<Rightarrow> error + Board" where
  "Board_placePiece debug board t piece =
     (let st = currentState board in
      bindE (to8x8Coords t) (\<lambda>s.
      bindE (at_write (squares st) t piece) (\<lambda>squares'.
      bindE (getBitboard board piece) (\<lambda>bb.
      bindE (placePiece debug bb s) (\<lambda>bb'.
      bindE (at_write (pieceBitboards st) (int (pieceIndex piece)) bb') (\<lambda>bitboards'.
      bindE (placePiece debug (allPieceBitboard st) s) (\<lambda>all'.
        Inr (setCurrentState
               (st\<lparr>squares := squares', pieceBitboards := bitboards',
                   allPieceBitboard := all'\<rparr>) board))))))))"

definition Board_removePiece :: "bool \<Rightarrow> Board \<Rightarrow> int \<Rightarrow> error + Board" where
  "Board_removePiece debug board t =
     (let st = currentState board in
      bindE (to8x8Coords t) (\<lambda>s.
      bindE (at10x12 board t) (\<lambda>piece.
      bindE (at_write (squares st) t \<lparr>getType = NoneT, getColor = White\<rparr>) (\<lambda>squares'.
      bindE (getBitboard board piece) (\<lambda>bb.
      bindE (removePiece debug bb s) (\<lambda>bb'.
      bindE (at_write (pieceBitboards st) (int (pieceIndex piece)) bb') (\<lambda>bitboards'.
      bindE (removePiece debug (allPieceBitboard st) s) (\<lambda>all'.
        Inr (setCurrentState
               (st\<lparr>squares := squares', pieceBitboards := bitboards',
                   allPieceBitboard := all'\<rparr>) board)))))))))"

text \<open>
  Steps 2 to 6 of the protocol: the en passant victim or the captured piece is removed,
  the piece is moved, a promoted pawn is replaced, and the rook's move of a castling is
  applied in the same way.
\<close>

fun movePieces :: "bool \<Rightarrow> Move \<Rightarrow> Board \<Rightarrow> error + Board" where
  "movePieces debug (Move from to promotion castling enPassant doublePush file aux) board =
     bindE (at10x12 board from) (\<lambda>mover.
     bindE (at10x12 board to) (\<lambda>target.
     bindE (if enPassant
            then Board_removePiece debug board (enPassantSquareToCapture (currentState board))
            else if getType target \<noteq> NoneT then Board_removePiece debug board to
            else Inr board) (\<lambda>b1.
     bindE (Board_removePiece debug b1 from) (\<lambda>b2.
     bindE (Board_placePiece debug b2 to
              (if promotion \<noteq> NoneT then \<lparr>getType = promotion, getColor = getColor mover\<rparr>
               else mover)) (\<lambda>b3.
       if castling
       then (case aux of None \<Rightarrow> Inr b3 | Some rookMove \<Rightarrow> movePieces debug rookMove b3)
       else Inr b3)))))"

text \<open>
  The corners and the king's squares, as padded indices: a8 = 21, e8 = 25, h8 = 28 for
  black and a1 = 91, e1 = 95, h1 = 98 for white; "left" is the queen side.
\<close>

definition clearCastleLeft :: "PieceColor \<Rightarrow> BoardState \<Rightarrow> BoardState" where
  "clearCastleLeft c st = st\<lparr>canCastleLeft := (canCastleLeft st)[colorIndex c := False]\<rparr>"

definition clearCastleRight :: "PieceColor \<Rightarrow> BoardState \<Rightarrow> BoardState" where
  "clearCastleRight c st = st\<lparr>canCastleRight := (canCastleRight st)[colorIndex c := False]\<rparr>"

definition removeCastlings :: "int \<Rightarrow> BoardState \<Rightarrow> BoardState" where
  "removeCastlings movedSquare st =
     (if movedSquare = 95 then clearCastleLeft White (clearCastleRight White st)
      else if movedSquare = 91 then clearCastleLeft White st
      else if movedSquare = 98 then clearCastleRight White st
      else if movedSquare = 25 then clearCastleLeft Black (clearCastleRight Black st)
      else if movedSquare = 21 then clearCastleLeft Black st
      else if movedSquare = 28 then clearCastleRight Black st
      else st)"

definition switchPerspective :: "Board \<Rightarrow> Board" where
  "switchPerspective board =
     setCurrentState
       ((currentState board)\<lparr>colorToMove := opposite (colorToMove (currentState board))\<rparr>)
       board"

definition applyMove :: "bool \<Rightarrow> Board \<Rightarrow> Move \<Rightarrow> error + Board" where
  "applyMove debug board move =
     (let pushed = board\<lparr>rewindStack := currentState board # rewindStack board\<rparr> in
      bindE (at10x12 pushed (startIndex move)) (\<lambda>mover.
      bindE (at10x12 pushed (endIndex move)) (\<lambda>target.
      bindE (movePieces debug move pushed) (\<lambda>moved.
        let st1 = currentState moved;
            st2 = (if getType mover = King \<or> getType mover = Rook
                   then removeCastlings (startIndex move) st1 else st1);
            st3 = (if getType target = Rook then removeCastlings (endIndex move) st2 else st2);
            st4 = (if isDoublePawnMove move
                   then st3\<lparr>enPassantSquare := (startIndex move + endIndex move) div 2,
                           enPassantSquareToCapture := endIndex move\<rparr>
                   else st3\<lparr>enPassantSquare := - 1, enPassantSquareToCapture := - 1\<rparr>)
        in Inr (switchPerspective (setCurrentState st4 moved))))))"

definition rewindMove :: "Board \<Rightarrow> error + Board" where
  "rewindMove board =
     (case rewindStack board of
        [] \<Rightarrow> Inl (RuntimeError ''No move to rewind.'')
      | st # rest \<Rightarrow> Inr (board\<lparr>currentState := st, rewindStack := rest\<rparr>))"

subsection \<open>Positions\<close>

text \<open>
  \<^verbatim>\<open>Bitboard::clear\<close> resets the bits, \<open>numPieces\<close> and the \<open>N\<close> entries of
  \<open>occupiedSquares\<close>; it does not write \<open>reverseOccupiedSquares\<close>.  The constructor calls
  it on the new object, whose arrays hold zeros when its storage is zero-initialised.
\<close>

definition clear :: "nat \<Rightarrow> Bitboard \<Rightarrow> Bitboard" where
  "clear N bb = bb\<lparr>bits := 0, numPieces := 0, occupiedSquares := replicate N (- 1)\<rparr>"

definition emptyBitboard :: "nat \<Rightarrow> Bitboard" where
  "emptyBitboard N =
     clear N \<lparr>bits = 0, occupiedSquares = replicate N 0,
              reverseOccupiedSquares = replicate 120 0, numPieces = 0\<rparr>"

text \<open>A board with no piece and no castling right, white to move.\<close>

definition emptyBoard :: Board where
  "emptyBoard =
     \<lparr>currentState =
        \<lparr>squares = replicate 120 \<lparr>getType = NoneT, getColor = White\<rparr>,
         pieceBitboards = replicate 16 (emptyBitboard 12),
         allPieceBitboard = emptyBitboard 32,
         colorToMove = White,
         canCastleLeft = [False, False],
         canCastleRight = [False, False],
         enPassantSquare = - 1,
         enPassantSquareToCapture = - 1\<rparr>,
      rewindStack = []\<rparr>"

text \<open>A board with the given pieces on the given compact squares, in a release build.\<close>

fun setUp :: "(int \<times> PieceType \<times> PieceColor) list \<Rightarrow> Board \<Rightarrow> error + Board" where
  "setUp [] board = Inr board"
| "setUp ((s, t, c) # ps) board =
     bindE (Board_placePiece False board (mailboxSmallToBig s) \<lparr>getType = t, getColor = c\<rparr>)
       (setUp ps)"

section \<open>Rewinding a move\<close>

text \<open>Placing, removing and moving pieces change nothing of a board but its current state.\<close>

lemma Board_placePiece_state:
  "Board_placePiece debug board t piece = Inr board' \<Longrightarrow>
   \<exists>st. board' = board\<lparr>currentState := st\<rparr>"
  by (auto simp: Board_placePiece_def setCurrentState_def bindE_def Let_def split: sum.splits)

lemma Board_removePiece_state:
  "Board_removePiece debug board t = Inr board' \<Longrightarrow>
   \<exists>st. board' = board\<lparr>currentState := st\<rparr>"
  by (auto simp: Board_removePiece_def setCurrentState_def bindE_def Let_def split: sum.splits)

lemma movePieces_state:
  "movePieces debug move board = Inr board' \<Longrightarrow> \<exists>st. board' = board\<lparr>currentState := st\<rparr>"
proof (induction debug move board arbitrary: board' rule: movePieces.induct)
  case (1 debug "from" to promotion castling enPassant doublePush epFile aux board)
  from "1.prems" obtain mover target b1 b2 b3 where
    b1: "(if enPassant
            then Board_removePiece debug board (enPassantSquareToCapture (currentState board))
            else if getType target \<noteq> NoneT then Board_removePiece debug board to
            else Inr board) = Inr b1"
    and b2: "Board_removePiece debug b1 from = Inr b2"
    and b3: "Board_placePiece debug b2 to
              (if promotion \<noteq> NoneT then \<lparr>getType = promotion, getColor = getColor mover\<rparr>
               else mover) = Inr b3"
    and m: "at10x12 board from = Inr mover" and t: "at10x12 board to = Inr target"
    and r: "(if castling
       then (case aux of None \<Rightarrow> Inr b3 | Some rookMove \<Rightarrow> movePieces debug rookMove b3)
       else Inr b3) = Inr board'"
    by (auto simp: bindE_def split: sum.splits)
  obtain st1 where s1: "b1 = board\<lparr>currentState := st1\<rparr>"
  proof (cases "enPassant \<or> getType target \<noteq> NoneT")
    case True
    then obtain sq where "Board_removePiece debug board sq = Inr b1"
      using b1 by (auto split: if_splits)
    from Board_removePiece_state [OF this] that show ?thesis by blast
  next
    case False
    then have "b1 = board\<lparr>currentState := currentState board\<rparr>" using b1 by simp
    then show ?thesis by (rule that)
  qed
  obtain st2 where s2: "b2 = b1\<lparr>currentState := st2\<rparr>"
    using Board_removePiece_state [OF b2] by blast
  obtain st3 where s3: "b3 = b2\<lparr>currentState := st3\<rparr>"
    using Board_placePiece_state [OF b3] by blast
  have s: "b3 = board\<lparr>currentState := st3\<rparr>" by (simp add: s1 s2 s3)
  show ?case
  proof (cases "castling \<and> aux \<noteq> None")
    case True
    then obtain rookMove where a: "aux = Some rookMove" by auto
    have "movePieces debug rookMove b3 = Inr board'" using r True a by simp
    from "1.IH" [OF m t b1 b2 b3 _ a this] True
    obtain st where "board' = b3\<lparr>currentState := st\<rparr>" by blast
    then have "board' = board\<lparr>currentState := st\<rparr>" by (simp add: s)
    then show ?thesis by blast
  next
    case False
    then have "board' = b3" using r by (auto split: option.splits if_splits)
    then show ?thesis using s by blast
  qed
qed

text \<open>
  C2.  Whenever \<open>applyMove\<close> succeeds on a board, \<open>rewindMove\<close> on the result gives back
  the board as it was: the mailbox, the piece bitboards and the bitboard of all pieces,
  the side to move, the castling rights, both en passant fields, and the stack of
  earlier states.
\<close>

theorem applyMove_rewindMove:
  assumes "applyMove debug board move = Inr board'"
  shows "rewindMove board' = Inr board"
proof -
  let ?pushed = "board\<lparr>rewindStack := currentState board # rewindStack board\<rparr>"
  from assms obtain moved st4 where
    m: "movePieces debug move ?pushed = Inr moved"
    and b: "board' = switchPerspective (setCurrentState st4 moved)"
    by (auto simp: applyMove_def bindE_def Let_def split: sum.splits)
  obtain st where "moved = ?pushed\<lparr>currentState := st\<rparr>"
    using movePieces_state [OF m] by blast
  then show ?thesis
    unfolding b by (simp add: rewindMove_def switchPerspective_def setCurrentState_def)
qed

section \<open>What the generator returns\<close>

























subsection \<open>Pawn moves\<close>


















subsection \<open>All moves\<close>





section \<open>Positions on which the generator is run\<close>

definition position :: "(int \<times> PieceType \<times> PieceColor) list \<Rightarrow> Board" where
  "position ps = (case setUp ps emptyBoard of Inr board \<Rightarrow> board | Inl _ \<Rightarrow> emptyBoard)"

text \<open>
  White to move: the white king on e1 (square 60), the black king on a8 (square 0) and a
  black rook on e8 (square 4), with the e-file open between rook and king.
\<close>

definition kingRookBoard :: Board where
  "kingRookBoard = position [(60, King, White), (0, King, Black), (4, Rook, Black)]"










lemma kingRook_moves:
  "generateAllMoves False \<lparr>generatedMoves = []\<rparr> kingRookBoard
     = Inr (map (newMove 95) [85, 94, 96, 84, 86],
            \<lparr>generatedMoves = map (newMove 95) [85, 94, 96, 84, 86]\<rparr>)"
  by code_simp

lemma kingRook_applied:
  "\<not> isl (applyMove False kingRookBoard (newMove 95 94))"
  by code_simp

lemma kingRook_rook:
  "length (squares (currentState (switchPerspective kingRookBoard))) = 120"
  "at (switchPerspective kingRookBoard) 4 = Inr \<lparr>getType = Rook, getColor = Black\<rparr>"
  "getColorToMove (switchPerspective kingRookBoard) = Black"
  "concat (map (slidingMovesOf (switchPerspective kingRookBoard) 4) (directionsOf Rook))
     = map (newMove 25) [24, 23, 22, 26, 27, 28, 35, 45, 55, 65, 75, 85, 95]"
  by code_simp+




subsection \<open>The theorems at these positions\<close>



theorem applyMove_rewindMove_witness:
  "\<not> isl (applyMove False kingRookBoard (newMove 95 94))
   \<and> rewindMove (projr (applyMove False kingRookBoard (newMove 95 94))) = Inr kingRookBoard"
proof -
  from kingRook_applied obtain after where
    after: "applyMove False kingRookBoard (newMove 95 94) = Inr after"
    by (cases "applyMove False kingRookBoard (newMove 95 94)") simp_all
  from applyMove_rewindMove [OF after] after show ?thesis by simp
qed






theorem generateSlidingMoves_rays_witness:
  "generateSlidingMoves (switchPerspective kingRookBoard) 4 []
     = Inr (map (newMove 25) [24, 23, 22, 26, 27, 28, 35, 45, 55, 65, 75, 85, 95])"
  using generateSlidingMoves_rays [of "switchPerspective kingRookBoard" 4
      "\<lparr>getType = Rook, getColor = Black\<rparr>" "[]"] kingRook_rook
  by simp

theorem generateAllMoves_deterministic_witness:
  "generateAllMoves False \<lparr>generatedMoves = []\<rparr> kingRookBoard
     = Inr (map (newMove 95) [85, 94, 96, 84, 86],
            \<lparr>generatedMoves = map (newMove 95) [85, 94, 96, 84, 86]\<rparr>)
   \<and> generateAllMoves False \<lparr>generatedMoves = map (newMove 95) [85, 94, 96, 84, 86]\<rparr> kingRookBoard
     = Inr (map (newMove 95) [85, 94, 96, 84, 86],
            \<lparr>generatedMoves = map (newMove 95) [85, 94, 96, 84, 86]\<rparr>)"
  using generateAllMoves_deterministic [where debug = False and board = kingRookBoard
      and gen = "\<lparr>generatedMoves = []\<rparr>" and ms = "map (newMove 95) [85, 94, 96, 84, 86]"
      and gen' = "\<lparr>generatedMoves = map (newMove 95) [85, 94, 96, 84, 86]\<rparr>"]
    kingRook_moves
  by (simp only: simp_thms)

end
